theory Spec2Isabelle
  imports
    Main
    "HOL-Library.Char_ord"
    "HOL-Library.List_Lexorder"
    "HOL-Library.Product_Lexorder"
    "HOL-Library.Multiset"
begin

section \<open>Dates and times\<close>

text \<open>
  Python's naive \<open>datetime\<close>: seven calendar fields, compared field by field from the
  year down to the microsecond. The store's timestamp column carries the same fields.
\<close>

datatype datetime =
  DateTime (year: nat) (month: nat) (day: nat)
           (hour: nat) (minute: nat) (second: nat) (microsecond: nat)

definition dt_key :: "datetime \<Rightarrow> nat \<times> nat \<times> nat \<times> nat \<times> nat \<times> nat \<times> nat" where
  "dt_key t = (year t, month t, day t, hour t, minute t, second t, microsecond t)"

instantiation datetime :: linorder
begin

definition less_eq_datetime :: "datetime \<Rightarrow> datetime \<Rightarrow> bool" where
  "less_eq_datetime a b \<longleftrightarrow> dt_key a \<le> dt_key b"

definition less_datetime :: "datetime \<Rightarrow> datetime \<Rightarrow> bool" where
  "less_datetime a b \<longleftrightarrow> dt_key a < dt_key b"

instance
proof
  fix a b c :: datetime
  show "a < b \<longleftrightarrow> a \<le> b \<and> \<not> b \<le> a"
    unfolding less_eq_datetime_def less_datetime_def by (rule less_le_not_le)
  show "a \<le> a"
    unfolding less_eq_datetime_def by simp
  show "a \<le> b \<Longrightarrow> b \<le> c \<Longrightarrow> a \<le> c"
    unfolding less_eq_datetime_def by (rule order_trans)
  show "a \<le> b \<or> b \<le> a"
    unfolding less_eq_datetime_def by (rule linear)
  show "a \<le> b \<Longrightarrow> b \<le> a \<Longrightarrow> a = b"
  proof -
    assume "a \<le> b" and "b \<le> a"
    then have "dt_key a = dt_key b"
      unfolding less_eq_datetime_def by (rule antisym)
    then show "a = b"
      by (cases a, cases b) (simp add: dt_key_def)
  qed
qed

end

text \<open>The date of a timestamp, as the triple (year, month, day).\<close>

definition date_of :: "datetime \<Rightarrow> nat \<times> nat \<times> nat" where
  "date_of t = (year t, month t, day t)"

text \<open>
  The proleptic Gregorian calendar of Python's \<open>datetime\<close> module
  (\<open>_is_leap\<close>, \<open>_days_in_month\<close>, \<open>_days_before_year\<close>, \<open>_days_before_month\<close>,
  \<open>_ymd2ord\<close>, \<open>weekday\<close>: Monday is 0).
\<close>

definition is_leap :: "nat \<Rightarrow> bool" where
  "is_leap y \<longleftrightarrow> y mod 4 = 0 \<and> (y mod 100 \<noteq> 0 \<or> y mod 400 = 0)"

definition days_in_month :: "nat \<Rightarrow> nat \<Rightarrow> nat" where
  "days_in_month y m =
     (if m = 2 then (if is_leap y then 29 else 28)
      else if m = 4 \<or> m = 6 \<or> m = 9 \<or> m = 11 then 30
      else 31)"

definition days_before_year :: "nat \<Rightarrow> nat" where
  "days_before_year y = (y - 1) * 365 + (y - 1) div 4 - (y - 1) div 100 + (y - 1) div 400"

definition days_before_month :: "nat \<Rightarrow> nat \<Rightarrow> nat" where
  "days_before_month y m = sum_list (map (days_in_month y) [1..<m])"

definition ymd2ord :: "nat \<Rightarrow> nat \<Rightarrow> nat \<Rightarrow> nat" where
  "ymd2ord y m d = days_before_year y + days_before_month y m + d"

definition weekday :: "datetime \<Rightarrow> nat" where
  "weekday t = (ymd2ord (year t) (month t) (day t) + 6) mod 7"

text \<open>The calendar day before a given one.\<close>

definition prev_day :: "nat \<times> nat \<times> nat \<Rightarrow> nat \<times> nat \<times> nat" where
  "prev_day ymd =
     (case ymd of (y, m, d) \<Rightarrow>
        if 1 < d then (y, m, d - 1)
        else if 1 < m then (y, m - 1, days_in_month y (m - 1))
        else (y - 1, 12, 31))"

definition midnight :: "nat \<times> nat \<times> nat \<Rightarrow> datetime" where
  "midnight ymd = (case ymd of (y, m, d) \<Rightarrow> DateTime y m d 0 0 0 0)"

text \<open>
  The store's \<open>date_trunc\<close> for the three units the service passes: the start of the
  day, the Monday of the ISO week, the first of the month, each at 00:00:00.
\<close>

datatype trunc_unit = Day | Week | Month

fun date_trunc :: "trunc_unit \<Rightarrow> datetime \<Rightarrow> datetime" where
  "date_trunc Day t = midnight (date_of t)"
| "date_trunc Week t = midnight ((prev_day ^^ weekday t) (date_of t))"
| "date_trunc Month t = midnight (year t, month t, 1)"

subsection \<open>Formatting and parsing with the format \<open>%Y-%m-%d\<close>\<close>

definition digit_char :: "nat \<Rightarrow> char" where
  "digit_char n = ''0123456789'' ! (n mod 10)"

fun dec :: "nat \<Rightarrow> string" where
  "dec n = (if n < 10 then [digit_char n] else dec (n div 10) @ [digit_char (n mod 10)])"

declare dec.simps [simp del]

definition zfill :: "nat \<Rightarrow> string \<Rightarrow> string" where
  "zfill w s = replicate (w - length s) (CHR ''0'') @ s"

text \<open>
  \<open>t.strftime("%Y-%m-%d")\<close>: the year on four digits, month and day on two. (For a
  year below 1000 the C library of some platforms prints the year without the leading
  zeros; no such year occurs in the examples.)
\<close>

definition strftime_ymd :: "datetime \<Rightarrow> string" where
  "strftime_ymd t =
     zfill 4 (dec (year t)) @ ''-'' @ zfill 2 (dec (month t)) @ ''-'' @ zfill 2 (dec (day t))"

definition is_digit :: "char \<Rightarrow> bool" where
  "is_digit c \<longleftrightarrow> c \<in> set ''0123456789''"

definition digit_val :: "char \<Rightarrow> nat" where
  "digit_val c = (of_char c :: nat) - 48"

text \<open>The number a string of decimal digits denotes.\<close>

definition str_val :: "string \<Rightarrow> nat" where
  "str_val s = foldl (\<lambda>a c. 10 * a + digit_val c) 0 s"

text \<open>
  The directives of Python's \<open>_strptime\<close>: \<open>%Y\<close> is four digits, \<open>%m\<close> is
  \<open>1[0-2]|0[1-9]|[1-9]\<close>, \<open>%d\<close> is \<open>3[0-1]|[1-2]\d|0[1-9]|[1-9]| [1-9]\<close>.
\<close>

fun parse_Y :: "string \<Rightarrow> nat option" where
  "parse_Y [a, b, c, d] =
     (if is_digit a \<and> is_digit b \<and> is_digit c \<and> is_digit d
      then Some (1000 * digit_val a + 100 * digit_val b + 10 * digit_val c + digit_val d)
      else None)"
| "parse_Y _ = None"

fun parse_m :: "string \<Rightarrow> nat option" where
  "parse_m [a] = (if a \<in> set ''123456789'' then Some (digit_val a) else None)"
| "parse_m [a, b] =
     (if a = CHR ''1'' \<and> b \<in> set ''012'' then Some (10 + digit_val b)
      else if a = CHR ''0'' \<and> b \<in> set ''123456789'' then Some (digit_val b)
      else None)"
| "parse_m _ = None"

fun parse_d :: "string \<Rightarrow> nat option" where
  "parse_d [a] = (if a \<in> set ''123456789'' then Some (digit_val a) else None)"
| "parse_d [a, b] =
     (if a = CHR ''3'' \<and> b \<in> set ''01'' then Some (30 + digit_val b)
      else if a \<in> set ''12'' \<and> is_digit b then Some (10 * digit_val a + digit_val b)
      else if a = CHR ''0'' \<and> b \<in> set ''123456789'' then Some (digit_val b)
      else if a = CHR '' '' \<and> b \<in> set ''123456789'' then Some (digit_val b)
      else None)"
| "parse_d _ = None"

text \<open>
  \<open>datetime.strptime(s, "%Y-%m-%d")\<close>; \<open>None\<close> is the \<open>ValueError\<close> (no match,
  unconverted data, or a date that does not exist such as year 0 or 30 February).
  The result is midnight of the parsed date. Digits are the ASCII digits: a character
  here is a byte, and the other decimal digits of Unicode, which Python's digit class also
  accepts, are not represented.
\<close>

definition strptime_ymd :: "string \<Rightarrow> datetime option" where
  "strptime_ymd s =
     (case parse_Y (take 4 s) of
        None \<Rightarrow> None
      | Some y \<Rightarrow>
          (case drop 4 s of
             [] \<Rightarrow> None
           | c # r \<Rightarrow>
               if c \<noteq> CHR ''-'' then None
               else
                 (case parse_m (takeWhile (\<lambda>x. x \<noteq> CHR ''-'') r) of
                    None \<Rightarrow> None
                  | Some m \<Rightarrow>
                      (case dropWhile (\<lambda>x. x \<noteq> CHR ''-'') r of
                         [] \<Rightarrow> None
                       | _ # r' \<Rightarrow>
                           (case parse_d r' of
                              None \<Rightarrow> None
                            | Some d \<Rightarrow>
                                if 1 \<le> y \<and> d \<le> days_in_month y m
                                then Some (DateTime y m d 0 0 0 0)
                                else None)))))"

section \<open>The usage-event table and the two aggregate queries\<close>

text \<open>
  A row of the table \<open>token_usage\<close> (the ORM class \<open>TokenUsage\<close>): every column is
  \<open>nullable=False\<close>. The table is the list of its rows in storage order.
\<close>

record TokenUsage =
  id_row :: int
  user_id :: string
  usage_time :: datetime
  tokens_used :: int
  activity :: string

text \<open>
  The \<open>WHERE\<close> clause shared by both queries:
  \<open>user_id = :user_id AND usage_time >= :start_date AND usage_time <= :end_date\<close>.
\<close>

definition where_clause :: "string \<Rightarrow> datetime \<Rightarrow> datetime \<Rightarrow> TokenUsage \<Rightarrow> bool" where
  "where_clause uid start_date end_date r \<longleftrightarrow>
     user_id r = uid \<and> start_date \<le> usage_time r \<and> usage_time r \<le> end_date"

definition period_of :: "trunc_unit \<Rightarrow> TokenUsage \<Rightarrow> datetime" where
  "period_of u r = date_trunc u (usage_time r)"

text \<open>
  \<open>SELECT date_trunc(u, usage_time) AS period, SUM(tokens_used) ... GROUP BY period
  ORDER BY period ASC\<close>: one row per period that has a matching event.
\<close>

definition usage_query ::
  "TokenUsage list \<Rightarrow> trunc_unit \<Rightarrow> string \<Rightarrow> datetime \<Rightarrow> datetime \<Rightarrow> (datetime \<times> int) list" where
  "usage_query db u uid start_date end_date =
     (let rows = filter (where_clause uid start_date end_date) db;
          periods = sort (remdups (map (period_of u) rows))
      in map (\<lambda>p. (p, sum_list (map tokens_used (filter (\<lambda>r. period_of u r = p) rows))))
             periods)"

text \<open>
  \<open>SELECT date_trunc(u, usage_time) AS period, activity, SUM(tokens_used) ...
  GROUP BY period, activity ORDER BY period ASC, activity ASC\<close>. Activities are
  ordered as byte strings.
\<close>

definition breakdown_query ::
  "TokenUsage list \<Rightarrow> trunc_unit \<Rightarrow> string \<Rightarrow> datetime \<Rightarrow> datetime
     \<Rightarrow> (datetime \<times> string \<times> int) list" where
  "breakdown_query db u uid start_date end_date =
     (let rows = filter (where_clause uid start_date end_date) db;
          groups = sort (remdups (map (\<lambda>r. (period_of u r, activity r)) rows))
      in map (\<lambda>(p, a).
                (p, a, sum_list (map tokens_used
                                   (filter (\<lambda>r. period_of u r = p \<and> activity r = a) rows))))
             groups)"

text \<open>
  The parts of the two result sets, named: the rows the \<open>WHERE\<close> clause keeps, the
  distinct periods in ascending order, the rows of one period, its distinct activities in
  ascending order, and the sum of one (period, activity) group.
\<close>

definition matching_rows :: "TokenUsage list \<Rightarrow> string \<Rightarrow> datetime \<Rightarrow> datetime \<Rightarrow> TokenUsage list" where
  "matching_rows db uid start_date end_date = filter (where_clause uid start_date end_date) db"

definition bucket_starts ::
  "TokenUsage list \<Rightarrow> trunc_unit \<Rightarrow> string \<Rightarrow> datetime \<Rightarrow> datetime \<Rightarrow> datetime list" where
  "bucket_starts db u uid start_date end_date =
     sort (remdups (map (period_of u) (matching_rows db uid start_date end_date)))"

definition bucket_rows ::
  "TokenUsage list \<Rightarrow> trunc_unit \<Rightarrow> string \<Rightarrow> datetime \<Rightarrow> datetime \<Rightarrow> datetime \<Rightarrow> TokenUsage list" where
  "bucket_rows db u uid start_date end_date p =
     filter (\<lambda>r. period_of u r = p) (matching_rows db uid start_date end_date)"

definition bucket_activities ::
  "TokenUsage list \<Rightarrow> trunc_unit \<Rightarrow> string \<Rightarrow> datetime \<Rightarrow> datetime \<Rightarrow> datetime \<Rightarrow> string list" where
  "bucket_activities db u uid start_date end_date p =
     sort (remdups (map activity (bucket_rows db u uid start_date end_date p)))"

definition activity_total ::
  "TokenUsage list \<Rightarrow> trunc_unit \<Rightarrow> string \<Rightarrow> datetime \<Rightarrow> datetime \<Rightarrow> datetime \<Rightarrow> string \<Rightarrow> int" where
  "activity_total db u uid start_date end_date p a =
     sum_list (map tokens_used
       (filter (\<lambda>r. activity r = a) (bucket_rows db u uid start_date end_date p)))"

text \<open>The statements a session executes, with their bound parameters.\<close>

datatype sql_query =
    UsageQuery trunc_unit string datetime datetime
  | BreakdownQuery trunc_unit string datetime datetime

fun bound_user_id :: "sql_query \<Rightarrow> string" where
  "bound_user_id (UsageQuery u uid s e) = uid"
| "bound_user_id (BreakdownQuery u uid s e) = uid"

section \<open>Python dictionaries\<close>

text \<open>
  A \<open>dict\<close> keeps its keys in insertion order: an association list with distinct
  keys. Assigning to a present key replaces the value in place, assigning to a new key
  appends.
\<close>

type_synonym ('k, 'v) dict = "('k \<times> 'v) list"

definition dict_keys :: "('k, 'v) dict \<Rightarrow> 'k list" where
  "dict_keys d = map fst d"

definition dict_modify :: "'k \<Rightarrow> ('v \<Rightarrow> 'v) \<Rightarrow> ('k, 'v) dict \<Rightarrow> ('k, 'v) dict" where
  "dict_modify k f d = map (\<lambda>(k', v). if k' = k then (k', f v) else (k', v)) d"

definition dict_set :: "'k \<Rightarrow> 'v \<Rightarrow> ('k, 'v) dict \<Rightarrow> ('k, 'v) dict" where
  "dict_set k v d = (if k \<in> set (dict_keys d) then dict_modify k (\<lambda>_. v) d else d @ [(k, v)])"

section \<open>The service: \<open>get_token_usage_aggregated\<close>\<close>

record usage_entry =
  period :: string
  total_tokens :: int

type_synonym breakdowns = "(string, (string, int) dict) dict"

text \<open>
  The body of the loop over the rows of the breakdown query:
  \<open>if period not in breakdowns: breakdowns[period] = {}\<close>, then
  \<open>breakdowns[period][activity] = tokens\<close>.
\<close>

definition add_breakdown_row :: "breakdowns \<Rightarrow> datetime \<times> string \<times> int \<Rightarrow> breakdowns" where
  "add_breakdown_row bd row =
     (case row of (p, a, t) \<Rightarrow>
        let k = strftime_ymd p;
            bd1 = (if k \<notin> set (dict_keys bd) then dict_set k [] bd else bd)
        in dict_modify k (dict_set a t) bd1)"

definition trunc_unit_of :: "string \<Rightarrow> trunc_unit" where
  "trunc_unit_of timeframe =
     (if timeframe = ''daily'' then Day
      else if timeframe = ''weekly'' then Week
      else if timeframe = ''monthly'' then Month
      else Day)"

text \<open>
  The service returns \<open>(usage_data, breakdowns)\<close>; the model returns with it the
  statements it executed on the session, in order.
\<close>

definition get_token_usage_aggregated ::
  "TokenUsage list \<Rightarrow> string \<Rightarrow> datetime \<Rightarrow> datetime \<Rightarrow> string
     \<Rightarrow> (usage_entry list \<times> breakdowns) \<times> sql_query list" where
  "get_token_usage_aggregated db uid start_date end_date timeframe =
     (let u = trunc_unit_of timeframe;
          usage_result = usage_query db u uid start_date end_date;
          usage_data =
            map (\<lambda>(p, t). \<lparr>period = strftime_ymd p, total_tokens = t\<rparr>) usage_result;
          breakdown_result = breakdown_query db u uid start_date end_date;
          bd = foldl add_breakdown_row [] breakdown_result
      in ((usage_data, bd),
          [UsageQuery u uid start_date end_date, BreakdownQuery u uid start_date end_date]))"

section \<open>Identities and credentials\<close>

text \<open>The values a decoded token's claims can hold.\<close>

datatype json =
    JNull
  | JBool bool
  | JNum int
  | JStr string
  | JArr "json list"
  | JObj "(string \<times> json) list"

text \<open>
  The payload \<open>jwt.decode\<close> returns, read at the three keys the middleware uses
  (\<open>None\<close>: the key is absent). The library rejects a token whose \<open>sub\<close> is not a
  string, so a present subject is a string.
\<close>

record jwt_payload =
  claim_sub :: "string option"
  claim_username :: "json option"
  claim_roles :: "json option"

text \<open>
  What \<open>jwt.decode\<close> can raise: \<open>JWTError\<close> (malformed token, bad signature, expired,
  invalid claims) or any other exception.
\<close>

datatype decode_error = JWTError | OtherException

type_synonym decoder = "string \<Rightarrow> string \<Rightarrow> string list \<Rightarrow> decode_error + jwt_payload"

text \<open>The class \<open>User\<close>; its constructor stores \<open>roles or []\<close>.\<close>

record User =
  id_user :: string
  username :: json
  roles :: json

text \<open>Python's truth value of a claim.\<close>

fun truthy :: "json \<Rightarrow> bool" where
  "truthy JNull = False"
| "truthy (JBool b) = b"
| "truthy (JNum n) = (n \<noteq> 0)"
| "truthy (JStr s) = (s \<noteq> [])"
| "truthy (JArr xs) = (xs \<noteq> [])"
| "truthy (JObj kvs) = (kvs \<noteq> [])"

definition new_User :: "string \<Rightarrow> json \<Rightarrow> json \<Rightarrow> User" where
  "new_User i n rs = \<lparr>id_user = i, username = n, roles = (if truthy rs then rs else JArr [])\<rparr>"

definition startswith :: "string \<Rightarrow> string \<Rightarrow> bool" where
  "startswith s p \<longleftrightarrow> take (length p) s = p"

fun is_substr :: "string \<Rightarrow> string \<Rightarrow> bool" where
  "is_substr p [] = (p = [])"
| "is_substr p (c # s) = (startswith (c # s) p \<or> is_substr p s)"

text \<open>
  \<open>role in roles\<close>: membership in a list, substring of a string, key of a mapping;
  \<open>None\<close> is the \<open>TypeError\<close> of a value that is not iterable.
\<close>

fun py_in :: "string \<Rightarrow> json \<Rightarrow> bool option" where
  "py_in r (JArr xs) = Some (JStr r \<in> set xs)"
| "py_in r (JStr s) = Some (is_substr r s)"
| "py_in r (JObj kvs) = Some (r \<in> fst ` set kvs)"
| "py_in r _ = None"

text \<open>\<open>any(role in roles for role in ["user", "admin"])\<close>, stopping at the first hit.\<close>

definition has_permitted_role :: "json \<Rightarrow> bool option" where
  "has_permitted_role rs =
     (case py_in ''user'' rs of
        None \<Rightarrow> None
      | Some True \<Rightarrow> Some True
      | Some False \<Rightarrow> py_in ''admin'' rs)"

section \<open>Requests and responses\<close>

record request =
  http_method :: string
  path :: string
  authorization :: "string option"
  query_params :: "(string \<times> string) list"

datatype content =
    Detail string
  | ValidationErrors "string list"
  | UsageBody "usage_entry list" breakdowns
  | OtherContent

record response =
  status_code :: nat
  body :: content

text \<open>A handled request: the response and the statements executed on its behalf.\<close>

type_synonym handled = "response \<times> sql_query list"

definition JSONResponse :: "nat \<Rightarrow> string \<Rightarrow> handled" where
  "JSONResponse code detail = (\<lparr>status_code = code, body = Detail detail\<rparr>, [])"

section \<open>The middleware: \<open>AuthMiddleware.dispatch\<close>\<close>

text \<open>
  The module constants, read from the process environment when the module is loaded:
  \<open>os.environ.get("JWT_SECRET_KEY", "supersecretkey")\<close> and
  \<open>os.environ.get("JWT_ALGORITHM", "HS256")\<close>.
\<close>

definition JWT_SECRET_KEY :: "(string \<rightharpoonup> string) \<Rightarrow> string" where
  "JWT_SECRET_KEY environ =
     (case environ ''JWT_SECRET_KEY'' of None \<Rightarrow> ''supersecretkey'' | Some v \<Rightarrow> v)"

definition JWT_ALGORITHM :: "(string \<rightharpoonup> string) \<Rightarrow> string" where
  "JWT_ALGORITHM environ =
     (case environ ''JWT_ALGORITHM'' of None \<Rightarrow> ''HS256'' | Some v \<Rightarrow> v)"

text \<open>\<open>payload.get("roles", [])\<close>.\<close>

definition payload_roles :: "jwt_payload \<Rightarrow> json" where
  "payload_roles payload = (case claim_roles payload of None \<Rightarrow> JArr [] | Some r \<Rightarrow> r)"

definition public_path :: "string \<Rightarrow> bool" where
  "public_path p \<longleftrightarrow>
     startswith p ''/docs'' \<or> startswith p ''/openapi'' \<or> startswith p ''/redoc''"

text \<open>
  \<open>call_next\<close> receives the request and \<open>request.state.user\<close> (\<open>None\<close> when the
  attribute was never set).
\<close>

definition dispatch ::
  "(string \<rightharpoonup> string) \<Rightarrow> decoder \<Rightarrow> (request \<Rightarrow> User option \<Rightarrow> handled) \<Rightarrow> request \<Rightarrow> handled" where
  "dispatch environ jwt_decode call_next req =
     (if public_path (path req) then call_next req None
      else
        (case authorization req of
           None \<Rightarrow> JSONResponse 401 ''Not authenticated''
         | Some auth_header \<Rightarrow>
             if auth_header = [] \<or> \<not> startswith auth_header ''Bearer ''
             then JSONResponse 401 ''Not authenticated''
             else
               (let token = drop 7 auth_header in
                case jwt_decode token (JWT_SECRET_KEY environ) [JWT_ALGORITHM environ] of
                  Inl JWTError \<Rightarrow> JSONResponse 401 ''Invalid or expired authentication token.''
                | Inl OtherException \<Rightarrow> JSONResponse 500 ''Authentication system error.''
                | Inr payload \<Rightarrow>
                    (let uid = claim_sub payload;
                         uname = claim_username payload;
                         rs = payload_roles payload
                     in
                       (case (uid, uname) of
                          (Some i, Some n) \<Rightarrow>
                            if i = [] \<or> \<not> truthy n
                            then JSONResponse 401 ''Invalid authentication token.''
                            else
                              (case has_permitted_role rs of
                                 None \<Rightarrow> JSONResponse 500 ''Authentication system error.''
                               | Some False \<Rightarrow> JSONResponse 403 ''Insufficient permissions.''
                               | Some True \<Rightarrow> call_next req (Some (new_User i n rs)))
                        | _ \<Rightarrow> JSONResponse 401 ''Invalid authentication token.'')))))"

section \<open>The route: \<open>GET /api/token-usage\<close>\<close>

text \<open>A query parameter read as a single string: the last occurrence wins.\<close>

definition query_get :: "(string \<times> string) list \<Rightarrow> string \<Rightarrow> string option" where
  "query_get qs k = map_of (rev qs) k"

text \<open>
  \<open>re.match("^(daily|weekly|monthly)$", s)\<close>. In Python's \<open>re\<close>, \<open>$\<close> matches at the end
  of the string and also just before a line feed that is its last character.
\<close>

definition timeframe_regex_match :: "string \<Rightarrow> bool" where
  "timeframe_regex_match s \<longleftrightarrow>
     (let core = (if s \<noteq> [] \<and> last s = CHR 0x0A then butlast s else s)
      in core \<in> set [''daily'', ''weekly'', ''monthly''])"

text \<open>The dependency \<open>get_current_user\<close>.\<close>

definition get_current_user :: "User option \<Rightarrow> response + User" where
  "get_current_user state_user =
     (case state_user of
        None \<Rightarrow> Inl \<lparr>status_code = 401, body = Detail ''Not authenticated''\<rparr>
      | Some u \<Rightarrow> Inr u)"

text \<open>The body of the path operation, once its parameters are bound.\<close>

definition get_token_usage ::
  "TokenUsage list \<Rightarrow> string \<Rightarrow> string \<Rightarrow> string \<Rightarrow> User \<Rightarrow> handled" where
  "get_token_usage db start_date end_date timeframe user =
     (case strptime_ymd start_date of
        None \<Rightarrow> JSONResponse 422 ''Invalid date format. Use YYYY-MM-DD.''
      | Some start_dt \<Rightarrow>
          (case strptime_ymd end_date of
             None \<Rightarrow> JSONResponse 422 ''Invalid date format. Use YYYY-MM-DD.''
           | Some end_dt \<Rightarrow>
               if start_dt > end_dt
               then JSONResponse 422 ''Start date must be before or equal to end date.''
               else
                 (let uid = id_user user;
                      res = get_token_usage_aggregated db uid start_dt end_dt timeframe
                  in (\<lparr>status_code = 200, body = UsageBody (fst (fst res)) (snd (fst res))\<rparr>,
                      snd res))))"

text \<open>
  The framework's handling of the route: the dependency runs first, then the query
  parameters are bound (\<open>start_date\<close> and \<open>end_date\<close> required, \<open>timeframe\<close> with the
  default \<open>daily\<close>, a supplied value checked against the pattern), all failures
  reported together as 422.
\<close>

definition token_usage_route :: "TokenUsage list \<Rightarrow> request \<Rightarrow> User option \<Rightarrow> handled" where
  "token_usage_route db req state_user =
     (case get_current_user state_user of
        Inl denied \<Rightarrow> (denied, [])
      | Inr user \<Rightarrow>
          (let qs = query_params req;
               errs =
                 (if query_get qs ''start_date'' = None then [''start_date''] else []) @
                 (if query_get qs ''end_date'' = None then [''end_date''] else []) @
                 (case query_get qs ''timeframe'' of
                    None \<Rightarrow> []
                  | Some tf \<Rightarrow> if timeframe_regex_match tf then [] else [''timeframe''])
           in
             (case (query_get qs ''start_date'', query_get qs ''end_date'') of
                (Some sd, Some ed) \<Rightarrow>
                  if errs \<noteq> [] then (\<lparr>status_code = 422, body = ValidationErrors errs\<rparr>, [])
                  else get_token_usage db sd ed
                         (case query_get qs ''timeframe'' of None \<Rightarrow> ''daily'' | Some tf \<Rightarrow> tf)
                         user
              | _ \<Rightarrow> (\<lparr>status_code = 422, body = ValidationErrors errs\<rparr>, []))))"

text \<open>
  The application behind the middleware: the token-usage route, and whatever the
  framework serves on every other path and method (documentation, 404, 405), which
  touches no data.
\<close>

definition router ::
  "(request \<Rightarrow> response) \<Rightarrow> TokenUsage list \<Rightarrow> request \<Rightarrow> User option \<Rightarrow> handled" where
  "router other db req state_user =
     (if path req = ''/api/token-usage'' \<and> http_method req = ''GET''
      then token_usage_route db req state_user
      else (other req, []))"

definition app ::
  "(string \<rightharpoonup> string) \<Rightarrow> decoder \<Rightarrow> (request \<Rightarrow> response) \<Rightarrow> TokenUsage list \<Rightarrow> request \<Rightarrow> handled" where
  "app environ jwt_decode other db req = dispatch environ jwt_decode (router other db) req"

section \<open>Example data\<close>

text \<open>
  A small table: four events of \<open>testuser\<close> on three consecutive days (the last one at
  noon of 12 June 2024) and one event of \<open>otheruser\<close>.
\<close>

definition example_db :: "TokenUsage list" where
  "example_db =
     [\<lparr>id_row = 1, user_id = ''testuser'', usage_time = DateTime 2024 6 10 9 30 0 0,
        tokens_used = 100, activity = ''chat''\<rparr>,
      \<lparr>id_row = 2, user_id = ''testuser'', usage_time = DateTime 2024 6 10 18 0 0 0,
        tokens_used = 50, activity = ''api''\<rparr>,
      \<lparr>id_row = 3, user_id = ''otheruser'', usage_time = DateTime 2024 6 11 10 0 0 0,
        tokens_used = 999, activity = ''api''\<rparr>,
      \<lparr>id_row = 4, user_id = ''testuser'', usage_time = DateTime 2024 6 11 14 0 0 0,
        tokens_used = 200, activity = ''api''\<rparr>,
      \<lparr>id_row = 5, user_id = ''testuser'', usage_time = DateTime 2024 6 12 12 0 0 0,
        tokens_used = 150, activity = ''chat''\<rparr>]"

text \<open>
  A verifier for the examples: it accepts a token only under the key it was signed with
  and the algorithm HS256. The token \<open>alice\<close> carries the subject \<open>testuser\<close> with the
  role \<open>user\<close>, the token \<open>guest\<close> the same subject with the role \<open>guest\<close> only,
  the token \<open>intern\<close> the same subject with the string \<open>superuser\<close> as its roles claim.
\<close>

definition example_decode :: "string \<Rightarrow> decoder" where
  "example_decode signing_key token key algorithms =
     (if key = signing_key \<and> algorithms = [''HS256''] then
        (if token = ''alice'' then
           Inr \<lparr>claim_sub = Some ''testuser'', claim_username = Some (JStr ''testuser''),
                claim_roles = Some (JArr [JStr ''user''])\<rparr>
         else if token = ''guest'' then
           Inr \<lparr>claim_sub = Some ''testuser'', claim_username = Some (JStr ''testuser''),
                claim_roles = Some (JArr [JStr ''guest''])\<rparr>
         else if token = ''intern'' then
           Inr \<lparr>claim_sub = Some ''testuser'', claim_username = Some (JStr ''testuser''),
                claim_roles = Some (JStr ''superuser'')\<rparr>
         else Inl JWTError)
      else Inl JWTError)"

definition example_environ :: "string \<rightharpoonup> string" where
  "example_environ = [''JWT_SECRET_KEY'' \<mapsto> ''k3y-from-the-vault'']"

definition example_user :: User where
  "example_user = new_User ''testuser'' (JStr ''testuser'') (JArr [JStr ''user''])"

definition example_request :: "string \<Rightarrow> (string \<times> string) list \<Rightarrow> request" where
  "example_request token qs =
     \<lparr>http_method = ''GET'', path = ''/api/token-usage'',
      authorization = Some (''Bearer '' @ token), query_params = qs\<rparr>"

definition example_range :: "(string \<times> string) list" where
  "example_range = [(''start_date'', ''2024-06-10''), (''end_date'', ''2024-06-12'')]"

text \<open>Everything outside the token-usage route answers 404 in the examples.\<close>

definition example_other :: "request \<Rightarrow> response" where
  "example_other req = \<lparr>status_code = 404, body = Detail ''Not Found''\<rparr>"

section \<open>Formatting is injective on dates\<close>

lemma digit_char_cases: "digit_char n \<in> set ''0123456789''"
  unfolding digit_char_def by (rule nth_mem) simp

lemma digit_vals: "map digit_val ''0123456789'' = [0..<10]"
  by code_simp

lemma digit_val_digit_char: "digit_val (digit_char n) = n mod 10"
proof -
  have l: "n mod 10 < length ''0123456789''" by simp
  have "digit_val (digit_char n) = map digit_val ''0123456789'' ! (n mod 10)"
    unfolding digit_char_def by (rule nth_map [OF l, symmetric])
  also have "\<dots> = [0..<10] ! (n mod 10)" by (simp only: digit_vals)
  also have "\<dots> = n mod 10" by simp
  finally show ?thesis .
qed

lemma digit_char_no_dash: "digit_char k \<noteq> CHR ''-''"
  using digit_char_cases [of k] by auto

lemma dec_no_dash: "CHR ''-'' \<notin> set (dec n)"
proof (induction n rule: dec.induct)
  case (1 n)
  show ?case
  proof (cases "n < 10")
    case True
    then have "dec n = [digit_char n]" by (subst dec.simps) simp
    then show ?thesis using digit_char_no_dash [of n] by simp
  next
    case False
    then have "dec n = dec (n div 10) @ [digit_char (n mod 10)]" by (subst dec.simps) simp
    then show ?thesis using 1 [OF False] digit_char_no_dash [of "n mod 10"] by simp
  qed
qed

lemma str_val_snoc: "str_val (s @ [c]) = 10 * str_val s + digit_val c"
  by (simp add: str_val_def)

lemma str_val_dec: "str_val (dec n) = n"
proof (induction n rule: dec.induct)
  case (1 n)
  show ?case
  proof (cases "n < 10")
    case True
    then show ?thesis
      by (subst dec.simps) (simp add: str_val_def digit_val_digit_char)
  next
    case False
    then have "str_val (dec n) = 10 * str_val (dec (n div 10)) + n mod 10"
      by (subst dec.simps) (simp add: str_val_snoc digit_val_digit_char)
    with False 1 show ?thesis by simp
  qed
qed

lemma str_val_zeros: "str_val (replicate k (CHR ''0'') @ s) = str_val s"
proof (induction k)
  case 0
  show ?case by simp
next
  case (Suc k)
  have "foldl (\<lambda>a c. 10 * a + digit_val c) 0 (CHR ''0'' # replicate k (CHR ''0'') @ s)
        = foldl (\<lambda>a c. 10 * a + digit_val c) 0 (replicate k (CHR ''0'') @ s)"
    by (simp add: digit_val_def)
  with Suc show ?case by (simp add: str_val_def)
qed

lemma str_val_zfill: "str_val (zfill w (dec n)) = n"
  by (simp add: zfill_def str_val_zeros str_val_dec)

lemma zfill_no_dash: "CHR ''-'' \<notin> set (zfill w (dec n))"
  by (auto simp: zfill_def dec_no_dash)

lemma dash_split:
  assumes "x @ CHR ''-'' # r = x' @ CHR ''-'' # r'"
    and "CHR ''-'' \<notin> set x" and "CHR ''-'' \<notin> set x'"
  shows "x = x' \<and> r = r'"
  using assms
proof (induction x arbitrary: x')
  case Nil
  then show ?case by (cases x') auto
next
  case (Cons a x)
  then show ?case by (cases x') auto
qed

lemma strftime_ymd_inj:
  assumes "strftime_ymd a = strftime_ymd b"
  shows "date_of a = date_of b"
proof -
  let ?Y = "\<lambda>t. zfill 4 (dec (year t))"
  let ?M = "\<lambda>t. zfill 2 (dec (month t))"
  let ?D = "\<lambda>t. zfill 2 (dec (day t))"
  from assms have e: "?Y a @ CHR ''-'' # (?M a @ CHR ''-'' # ?D a)
                    = ?Y b @ CHR ''-'' # (?M b @ CHR ''-'' # ?D b)"
    by (simp add: strftime_ymd_def)
  from dash_split [OF e zfill_no_dash zfill_no_dash]
  have y: "?Y a = ?Y b" and r: "?M a @ CHR ''-'' # ?D a = ?M b @ CHR ''-'' # ?D b"
    by simp_all
  from dash_split [OF r zfill_no_dash zfill_no_dash]
  have m: "?M a = ?M b" and d: "?D a = ?D b"
    by simp_all
  have "year a = year b"
    using arg_cong [OF y, of str_val] by (simp only: str_val_zfill)
  moreover have "month a = month b"
    using arg_cong [OF m, of str_val] by (simp only: str_val_zfill)
  moreover have "day a = day b"
    using arg_cong [OF d, of str_val] by (simp only: str_val_zfill)
  ultimately show ?thesis by (simp add: date_of_def)
qed

lemma midnight_date_of: "midnight (date_of (midnight ymd)) = midnight ymd"
  by (cases ymd) (simp add: midnight_def date_of_def)

lemma date_trunc_midnight: "date_trunc u t = midnight (date_of (date_trunc u t))"
  by (cases u) (simp_all only: date_trunc.simps midnight_date_of)

lemma strftime_date_trunc_inj:
  assumes "strftime_ymd (date_trunc u a) = strftime_ymd (date_trunc u b)"
  shows "date_trunc u a = date_trunc u b"
proof -
  have "date_trunc u a = midnight (date_of (date_trunc u a))"
    by (rule date_trunc_midnight)
  also have "\<dots> = midnight (date_of (date_trunc u b))"
    by (simp only: strftime_ymd_inj [OF assms])
  also have "\<dots> = date_trunc u b"
    by (rule date_trunc_midnight [symmetric])
  finally show ?thesis .
qed

section \<open>Sums by group, and the loop that builds the breakdowns\<close>

lemma sum_list_delta:
  fixes c :: int
  assumes "distinct ks" and "k0 \<in> set ks"
  shows "(\<Sum>k\<leftarrow>ks. if k0 = k then c else 0) = c"
  using assms
proof (induction ks)
  case Nil
  then show ?case by simp
next
  case (Cons k ks)
  show ?case
  proof (cases "k0 = k")
    case True
    with Cons.prems have "k0 \<notin> set ks" by simp
    then have "(\<Sum>k\<leftarrow>ks. if k0 = k then c else 0) = 0"
      by (induction ks) auto
    with True show ?thesis by simp
  next
    case False
    with Cons show ?thesis by simp
  qed
qed

lemma sum_list_group:
  fixes g :: "'a \<Rightarrow> int"
  assumes "distinct ks" and "f ` set xs \<subseteq> set ks"
  shows "(\<Sum>k\<leftarrow>ks. sum_list (map g (filter (\<lambda>x. f x = k) xs))) = sum_list (map g xs)"
  using assms(2)
proof (induction xs)
  case Nil
  show ?case by simp
next
  case (Cons x xs)
  have "(\<Sum>k\<leftarrow>ks. sum_list (map g (filter (\<lambda>y. f y = k) (x # xs))))
      = (\<Sum>k\<leftarrow>ks. (if f x = k then g x else 0) + sum_list (map g (filter (\<lambda>y. f y = k) xs)))"
    by (rule arg_cong [where f = sum_list], rule map_cong) auto
  also have "\<dots> = (\<Sum>k\<leftarrow>ks. if f x = k then g x else 0)
                  + (\<Sum>k\<leftarrow>ks. sum_list (map g (filter (\<lambda>y. f y = k) xs)))"
    by (rule sum_list_addf)
  also have "\<dots> = g x + sum_list (map g xs)"
    using Cons sum_list_delta [OF assms(1), of "f x" "g x"] by simp
  finally show ?case by simp
qed

lemma dict_modify_absent:
  "k \<notin> set (dict_keys d) \<Longrightarrow> dict_modify k f d = d"
  unfolding dict_modify_def dict_keys_def
  by (induction d) auto

lemma dict_modify_last:
  "k \<notin> set (dict_keys d) \<Longrightarrow> dict_modify k f (d @ [(k, v)]) = d @ [(k, f v)]"
  using dict_modify_absent [of k d f]
  by (simp add: dict_modify_def)

lemma dict_keys_append [simp]: "dict_keys (d @ d') = dict_keys d @ dict_keys d'"
  by (simp add: dict_keys_def)

lemma dict_keys_single [simp]: "dict_keys [(k, v)] = [k]"
  by (simp add: dict_keys_def)

lemma add_breakdown_row_new:
  assumes "strftime_ymd p \<notin> set (dict_keys bd)"
  shows "add_breakdown_row bd (p, a, t) = bd @ [(strftime_ymd p, [(a, t)])]"
  using assms dict_modify_last [of "strftime_ymd p" bd "dict_set a t" "[]"]
  by (simp add: add_breakdown_row_def dict_set_def Let_def dict_keys_def)

lemma add_breakdown_row_last:
  assumes "strftime_ymd p \<notin> set (dict_keys bd)" and "a \<notin> set (dict_keys d)"
  shows "add_breakdown_row (bd @ [(strftime_ymd p, d)]) (p, a, t)
         = bd @ [(strftime_ymd p, d @ [(a, t)])]"
  using assms dict_modify_last [of "strftime_ymd p" bd "dict_set a t" d]
  by (simp add: add_breakdown_row_def dict_set_def Let_def)

lemma foldl_group_last:
  assumes "strftime_ymd p \<notin> set (dict_keys bd)"
    and "distinct as" and "set as \<inter> set (dict_keys d) = {}"
  shows "foldl add_breakdown_row (bd @ [(strftime_ymd p, d)]) (map (\<lambda>a. (p, a, T a)) as)
         = bd @ [(strftime_ymd p, d @ map (\<lambda>a. (a, T a)) as)]"
  using assms(2,3)
proof (induction as arbitrary: d)
  case Nil
  show ?case by simp
next
  case (Cons a as)
  have a: "a \<notin> set (dict_keys d)" using Cons.prems by auto
  have d: "distinct as" using Cons.prems by simp
  have i: "set as \<inter> set (dict_keys (d @ [(a, T a)])) = {}" using Cons.prems by auto
  show ?case
    using Cons.IH [OF d i] add_breakdown_row_last [OF assms(1) a] by simp
qed

lemma foldl_group:
  assumes "strftime_ymd p \<notin> set (dict_keys bd)" and "distinct as" and "as \<noteq> []"
  shows "foldl add_breakdown_row bd (map (\<lambda>a. (p, a, T a)) as)
         = bd @ [(strftime_ymd p, map (\<lambda>a. (a, T a)) as)]"
proof (cases as)
  case Nil
  with assms(3) show ?thesis by simp
next
  case (Cons a as')
  have d: "distinct as'" and i: "set as' \<inter> set (dict_keys [(a, T a)]) = {}"
    using assms(2) Cons by auto
  show ?thesis
    using foldl_group_last [OF assms(1) d i, of T] add_breakdown_row_new [OF assms(1)] Cons
    by simp
qed

lemma sorted_Pair_map:
  fixes p :: "'p::linorder" and as :: "'a::linorder list"
  shows "sorted as \<Longrightarrow> sorted (map (Pair p) as)"
  by (induction as) auto

lemma sorted_groups:
  fixes ps :: "'p::linorder list" and F :: "'p \<Rightarrow> 'a::linorder list"
  assumes "sorted ps" and "distinct ps" and "\<And>p. sorted (F p)"
  shows "sorted (concat (map (\<lambda>p. map (Pair p) (F p)) ps))"
  using assms(1,2)
proof (induction ps)
  case Nil
  show ?case by simp
next
  case (Cons p ps)
  have lt: "\<And>q. q \<in> set ps \<Longrightarrow> p < q"
    using Cons.prems by (auto simp: less_le)
  have "sorted (concat (map (\<lambda>p. map (Pair p) (F p)) ps))"
    using Cons by simp
  moreover have "sorted (map (Pair p) (F p))"
    by (rule sorted_Pair_map) (rule assms(3))
  moreover have "\<forall>x\<in>set (map (Pair p) (F p)).
                 \<forall>y\<in>set (concat (map (\<lambda>p. map (Pair p) (F p)) ps)). x \<le> y"
    using lt by auto
  ultimately show ?case by (simp add: sorted_append)
qed

lemma distinct_groups:
  assumes "distinct ps" and "\<And>p. distinct (F p)"
  shows "distinct (concat (map (\<lambda>p. map (Pair p) (F p)) ps))"
  using assms(1)
proof (induction ps)
  case Nil
  show ?case by simp
next
  case (Cons p ps)
  have "distinct (map (Pair p) (F p))"
    using assms(2) by (simp add: distinct_map inj_on_def)
  moreover have "set (map (Pair p) (F p)) \<inter> set (concat (map (\<lambda>p. map (Pair p) (F p)) ps)) = {}"
    using Cons.prems by auto
  ultimately show ?case using Cons by simp
qed

lemma groups_concat:
  fixes P :: "'r \<Rightarrow> 'p::linorder" and A :: "'r \<Rightarrow> 'a::linorder"
  shows "sort (remdups (map (\<lambda>r. (P r, A r)) rows))
       = concat (map (\<lambda>p. map (Pair p) (sort (remdups (map A (filter (\<lambda>r. P r = p) rows)))))
                     (sort (remdups (map P rows))))"
proof (rule sorted_distinct_set_unique)
  show "sorted (sort (remdups (map (\<lambda>r. (P r, A r)) rows)))" by simp
  show "distinct (sort (remdups (map (\<lambda>r. (P r, A r)) rows)))" by simp
  show "sorted (concat (map (\<lambda>p. map (Pair p) (sort (remdups (map A (filter (\<lambda>r. P r = p) rows)))))
                     (sort (remdups (map P rows)))))"
    by (rule sorted_groups) simp_all
  show "distinct (concat (map (\<lambda>p. map (Pair p) (sort (remdups (map A (filter (\<lambda>r. P r = p) rows)))))
                     (sort (remdups (map P rows)))))"
    by (rule distinct_groups) simp_all
  show "set (sort (remdups (map (\<lambda>r. (P r, A r)) rows)))
      = set (concat (map (\<lambda>p. map (Pair p) (sort (remdups (map A (filter (\<lambda>r. P r = p) rows)))))
                     (sort (remdups (map P rows)))))"
  proof (rule set_eqI)
    fix x :: "'p \<times> 'a"
    obtain p a where x: "x = (p, a)" by (cases x)
    have "x \<in> set (sort (remdups (map (\<lambda>r. (P r, A r)) rows)))
          \<longleftrightarrow> (\<exists>r\<in>set rows. P r = p \<and> A r = a)"
      unfolding x by auto
    moreover have "x \<in> set (concat (map (\<lambda>p. map (Pair p) (sort (remdups (map A (filter (\<lambda>r. P r = p) rows)))))
                     (sort (remdups (map P rows)))))
          \<longleftrightarrow> (\<exists>r\<in>set rows. P r = p \<and> A r = a)"
      unfolding x by auto
    ultimately show "x \<in> set (sort (remdups (map (\<lambda>r. (P r, A r)) rows)))
          \<longleftrightarrow> x \<in> set (concat (map (\<lambda>p. map (Pair p) (sort (remdups (map A (filter (\<lambda>r. P r = p) rows)))))
                     (sort (remdups (map P rows)))))"
      by simp
  qed
qed

lemma foldl_groups:
  assumes "distinct ps" and "inj_on strftime_ymd (set ps)"
    and "\<And>p. p \<in> set ps \<Longrightarrow> distinct (F p) \<and> F p \<noteq> []"
  shows "foldl add_breakdown_row [] (concat (map (\<lambda>p. map (\<lambda>a. (p, a, T p a)) (F p)) ps))
       = map (\<lambda>p. (strftime_ymd p, map (\<lambda>a. (a, T p a)) (F p))) ps"
  using assms
proof (induction ps rule: rev_induct)
  case Nil
  show ?case by simp
next
  case (snoc p ps)
  let ?H = "\<lambda>p. (strftime_ymd p, map (\<lambda>a. (a, T p a)) (F p))"
  have ih: "foldl add_breakdown_row [] (concat (map (\<lambda>p. map (\<lambda>a. (p, a, T p a)) (F p)) ps))
            = map ?H ps"
    using snoc by (simp add: inj_on_def)
  have fresh: "strftime_ymd p \<notin> set (dict_keys (map ?H ps))"
  proof
    assume "strftime_ymd p \<in> set (dict_keys (map ?H ps))"
    then obtain q where q: "q \<in> set ps" "strftime_ymd q = strftime_ymd p"
      by (auto simp: dict_keys_def)
    with snoc.prems(2) have "q = p" by (simp add: inj_on_def)
    with q snoc.prems(1) show False by simp
  qed
  have fp: "distinct (F p)" "F p \<noteq> []" using snoc.prems(3) [of p] by simp_all
  show ?case
    using foldl_group [OF fresh fp, of "T p"] ih by simp
qed

section \<open>The results of the service in closed form\<close>

lemma usage_query_closed:
  "usage_query db u uid s e =
     map (\<lambda>p. (p, sum_list (map tokens_used (bucket_rows db u uid s e p))))
         (bucket_starts db u uid s e)"
  by (simp add: usage_query_def bucket_starts_def bucket_rows_def matching_rows_def Let_def)

lemma breakdown_query_closed:
  "breakdown_query db u uid s e =
     concat (map (\<lambda>p. map (\<lambda>a. (p, a, activity_total db u uid s e p a))
                          (bucket_activities db u uid s e p))
                 (bucket_starts db u uid s e))"
proof -
  let ?rows = "matching_rows db uid s e"
  have f: "\<And>p a. filter (\<lambda>r. period_of u r = p \<and> activity r = a) ?rows
                 = filter (\<lambda>r. activity r = a) (filter (\<lambda>r. period_of u r = p) ?rows)"
    by (simp add: conj_commute)
  have "breakdown_query db u uid s e =
        map (\<lambda>(p, a). (p, a, activity_total db u uid s e p a))
            (sort (remdups (map (\<lambda>r. (period_of u r, activity r)) ?rows)))"
    by (simp add: breakdown_query_def matching_rows_def Let_def activity_total_def
        bucket_rows_def f)
  also have "\<dots> = map (\<lambda>(p, a). (p, a, activity_total db u uid s e p a))
        (concat (map (\<lambda>p. map (Pair p) (bucket_activities db u uid s e p))
                     (bucket_starts db u uid s e)))"
    by (simp only: groups_concat bucket_activities_def bucket_starts_def bucket_rows_def)
  also have "\<dots> = concat (map (\<lambda>p. map (\<lambda>a. (p, a, activity_total db u uid s e p a))
                          (bucket_activities db u uid s e p))
                 (bucket_starts db u uid s e))"
    by (simp add: map_concat comp_def)
  finally show ?thesis .
qed

lemma bucket_starts_distinct: "distinct (bucket_starts db u uid s e)"
  by (simp add: bucket_starts_def)

lemma bucket_starts_sorted: "sorted (bucket_starts db u uid s e)"
  by (simp add: bucket_starts_def)

lemma bucket_starts_mem:
  "p \<in> set (bucket_starts db u uid s e) \<longleftrightarrow>
     (\<exists>r\<in>set (matching_rows db uid s e). period_of u r = p)"
  by (auto simp: bucket_starts_def)

lemma bucket_starts_inj: "inj_on strftime_ymd (set (bucket_starts db u uid s e))"
proof (rule inj_onI)
  fix p q
  assume "p \<in> set (bucket_starts db u uid s e)" "q \<in> set (bucket_starts db u uid s e)"
    and eq: "strftime_ymd p = strftime_ymd q"
  then obtain a b where pq: "p = date_trunc u a" "q = date_trunc u b"
    by (auto simp: bucket_starts_mem period_of_def)
  from eq have "strftime_ymd (date_trunc u a) = strftime_ymd (date_trunc u b)"
    unfolding pq .
  then have "date_trunc u a = date_trunc u b"
    by (rule strftime_date_trunc_inj)
  then show "p = q" unfolding pq .
qed

lemma bucket_activities_ok:
  assumes "p \<in> set (bucket_starts db u uid s e)"
  shows "distinct (bucket_activities db u uid s e p) \<and> bucket_activities db u uid s e p \<noteq> []"
proof -
  from assms obtain r where "r \<in> set (matching_rows db uid s e)" "period_of u r = p"
    by (auto simp: bucket_starts_mem)
  then have "r \<in> set (bucket_rows db u uid s e p)" by (simp add: bucket_rows_def)
  then have "activity r \<in> set (bucket_activities db u uid s e p)"
    by (simp add: bucket_activities_def)
  then have "bucket_activities db u uid s e p \<noteq> []"
    by auto
  moreover have "distinct (bucket_activities db u uid s e p)"
    by (simp add: bucket_activities_def)
  ultimately show ?thesis by simp
qed

lemma usage_data_closed:
  "fst (fst (get_token_usage_aggregated db uid s e tf)) =
     map (\<lambda>p. \<lparr>period = strftime_ymd p,
               total_tokens = sum_list (map tokens_used
                                (bucket_rows db (trunc_unit_of tf) uid s e p))\<rparr>)
         (bucket_starts db (trunc_unit_of tf) uid s e)"
  by (simp add: get_token_usage_aggregated_def Let_def usage_query_closed comp_def)

lemma breakdowns_closed:
  "snd (fst (get_token_usage_aggregated db uid s e tf)) =
     map (\<lambda>p. (strftime_ymd p,
               map (\<lambda>a. (a, activity_total db (trunc_unit_of tf) uid s e p a))
                   (bucket_activities db (trunc_unit_of tf) uid s e p)))
         (bucket_starts db (trunc_unit_of tf) uid s e)"
proof -
  let ?u = "trunc_unit_of tf"
  have "foldl add_breakdown_row []
          (concat (map (\<lambda>p. map (\<lambda>a. (p, a, activity_total db ?u uid s e p a))
                               (bucket_activities db ?u uid s e p))
                       (bucket_starts db ?u uid s e)))
        = map (\<lambda>p. (strftime_ymd p,
                     map (\<lambda>a. (a, activity_total db ?u uid s e p a))
                         (bucket_activities db ?u uid s e p)))
              (bucket_starts db ?u uid s e)"
    by (rule foldl_groups)
       (rule bucket_starts_distinct, rule bucket_starts_inj, rule bucket_activities_ok)
  then show ?thesis
    by (simp add: get_token_usage_aggregated_def Let_def breakdown_query_closed)
qed

lemma activity_totals_sum:
  "(\<Sum>a\<leftarrow>bucket_activities db u uid s e p. activity_total db u uid s e p a)
     = sum_list (map tokens_used (bucket_rows db u uid s e p))"
  unfolding activity_total_def bucket_activities_def
  by (rule sum_list_group) simp_all

section \<open>The middleware, the route and the scope of the queries\<close>

lemma JSONResponse_parts [simp]:
  "snd (JSONResponse code detail) = []"
  "status_code (fst (JSONResponse code detail)) = code"
  by (simp_all add: JSONResponse_def)

lemma bearer_nonempty: "startswith h ''Bearer '' \<Longrightarrow> h \<noteq> []"
  by (auto simp: startswith_def)

lemma dispatch_public:
  "public_path (path req) \<Longrightarrow> dispatch env jd cn req = cn req None"
  by (simp add: dispatch_def)

lemma dispatch_no_header:
  "\<not> public_path (path req) \<Longrightarrow> authorization req = None
   \<Longrightarrow> dispatch env jd cn req = JSONResponse 401 ''Not authenticated''"
  by (simp add: dispatch_def)

lemma dispatch_bad_header:
  "\<not> public_path (path req) \<Longrightarrow> authorization req = Some h \<Longrightarrow> \<not> startswith h ''Bearer ''
   \<Longrightarrow> dispatch env jd cn req = JSONResponse 401 ''Not authenticated''"
  by (simp add: dispatch_def)

lemma dispatch_jwt_error:
  "\<not> public_path (path req) \<Longrightarrow> authorization req = Some h \<Longrightarrow> startswith h ''Bearer ''
   \<Longrightarrow> jd (drop 7 h) (JWT_SECRET_KEY env) [JWT_ALGORITHM env] = Inl JWTError
   \<Longrightarrow> dispatch env jd cn req = JSONResponse 401 ''Invalid or expired authentication token.''"
  by (simp add: dispatch_def bearer_nonempty)

lemma dispatch_other_exception:
  "\<not> public_path (path req) \<Longrightarrow> authorization req = Some h \<Longrightarrow> startswith h ''Bearer ''
   \<Longrightarrow> jd (drop 7 h) (JWT_SECRET_KEY env) [JWT_ALGORITHM env] = Inl OtherException
   \<Longrightarrow> dispatch env jd cn req = JSONResponse 500 ''Authentication system error.''"
  by (simp add: dispatch_def bearer_nonempty)

lemma dispatch_missing_claims:
  "\<not> public_path (path req) \<Longrightarrow> authorization req = Some h \<Longrightarrow> startswith h ''Bearer ''
   \<Longrightarrow> jd (drop 7 h) (JWT_SECRET_KEY env) [JWT_ALGORITHM env] = Inr payload
   \<Longrightarrow> claim_sub payload = None \<or> claim_sub payload = Some []
        \<or> claim_username payload = None
        \<or> (\<exists>n. claim_username payload = Some n \<and> \<not> truthy n)
   \<Longrightarrow> dispatch env jd cn req = JSONResponse 401 ''Invalid authentication token.''"
  by (auto simp: dispatch_def bearer_nonempty Let_def split: option.splits)

lemma dispatch_roles:
  "\<not> public_path (path req) \<Longrightarrow> authorization req = Some h \<Longrightarrow> startswith h ''Bearer ''
   \<Longrightarrow> jd (drop 7 h) (JWT_SECRET_KEY env) [JWT_ALGORITHM env] = Inr payload
   \<Longrightarrow> claim_sub payload = Some i \<Longrightarrow> i \<noteq> []
   \<Longrightarrow> claim_username payload = Some n \<Longrightarrow> truthy n
   \<Longrightarrow> dispatch env jd cn req =
        (case has_permitted_role (payload_roles payload) of
           None \<Rightarrow> JSONResponse 500 ''Authentication system error.''
         | Some False \<Rightarrow> JSONResponse 403 ''Insufficient permissions.''
         | Some True \<Rightarrow> cn req (Some (new_User i n (payload_roles payload))))"
  by (simp add: dispatch_def bearer_nonempty Let_def)

lemma dispatch_outcome:
  "(public_path (path req) \<and> (\<forall>cn. dispatch env jd cn req = cn req None))
   \<or> (\<not> public_path (path req) \<and>
       (\<exists>code detail. (code = 401 \<or> code = 403 \<or> code = 500) \<and>
          (\<forall>cn. dispatch env jd cn req = JSONResponse code detail)))
   \<or> (\<not> public_path (path req) \<and>
       (\<exists>h payload i n.
          authorization req = Some h \<and> startswith h ''Bearer '' \<and>
          jd (drop 7 h) (JWT_SECRET_KEY env) [JWT_ALGORITHM env] = Inr payload \<and>
          claim_sub payload = Some i \<and> i \<noteq> [] \<and>
          claim_username payload = Some n \<and> truthy n \<and>
          has_permitted_role (payload_roles payload) = Some True \<and>
          (\<forall>cn. dispatch env jd cn req
                  = cn req (Some (new_User i n (payload_roles payload))))))"
  (is "?A \<or> ?B \<or> ?C")
proof (cases "public_path (path req)")
  case True
  then show ?thesis by (simp add: dispatch_public)
next
  case np: False
  have denied: ?thesis if "\<forall>cn. dispatch env jd cn req = JSONResponse code detail"
    and "code = 401 \<or> code = 403 \<or> code = 500" for code detail
    using that np by blast
  show ?thesis
  proof (cases "authorization req")
    case None
    show ?thesis
      by (rule denied [of 401 "''Not authenticated''"])
         (simp_all add: dispatch_no_header [OF np None])
  next
    case (Some h)
    show ?thesis
    proof (cases "startswith h ''Bearer ''")
      case False
      show ?thesis
        by (rule denied [of 401 "''Not authenticated''"])
           (simp_all add: dispatch_bad_header [OF np Some False])
    next
      case b: True
      show ?thesis
      proof (cases "jd (drop 7 h) (JWT_SECRET_KEY env) [JWT_ALGORITHM env]")
        case (Inl err)
        show ?thesis
        proof (cases err)
          case JWTError
          show ?thesis
            by (rule denied [of 401 "''Invalid or expired authentication token.''"])
               (simp_all add: dispatch_jwt_error [where jd = jd and env = env and h = h, OF np Some b Inl [unfolded JWTError]])
        next
          case OtherException
          show ?thesis
            by (rule denied [of 500 "''Authentication system error.''"])
               (simp_all add: dispatch_other_exception [where jd = jd and env = env and h = h, OF np Some b Inl [unfolded OtherException]])
        qed
      next
        case (Inr payload)
        show ?thesis
        proof (cases "claim_sub payload = None \<or> claim_sub payload = Some []
            \<or> claim_username payload = None
            \<or> (\<exists>n. claim_username payload = Some n \<and> \<not> truthy n)")
          case True
          show ?thesis
            by (rule denied [of 401 "''Invalid authentication token.''"])
               (simp_all add: dispatch_missing_claims [where jd = jd and env = env and h = h, OF np Some b Inr True])
        next
          case False
          then obtain i n where c: "claim_sub payload = Some i" "i \<noteq> []"
              "claim_username payload = Some n" "truthy n"
            by auto
          note d = dispatch_roles [where jd = jd and env = env and h = h, OF np Some b Inr c]
          show ?thesis
          proof (cases "has_permitted_role (payload_roles payload)")
            case None
            show ?thesis
              by (rule denied [of 500 "''Authentication system error.''"])
                 (simp_all add: d None)
          next
            case (Some ok)
            show ?thesis
            proof (cases ok)
              case True
              have "?C"
                using np \<open>authorization req = Some h\<close> b Inr c Some True d by auto
              then show ?thesis by blast
            next
              case False
              show ?thesis
                by (rule denied [of 403 "''Insufficient permissions.''"])
                   (simp_all add: d Some False)
            qed
          qed
        qed
      qed
    qed
  qed
qed

lemma aggregated_trace:
  "snd (get_token_usage_aggregated db uid s e tf)
     = [UsageQuery (trunc_unit_of tf) uid s e, BreakdownQuery (trunc_unit_of tf) uid s e]"
  by (simp add: get_token_usage_aggregated_def Let_def)

lemma aggregated_own_rows:
  "get_token_usage_aggregated (filter (\<lambda>r. user_id r = uid) db) uid s e tf
     = get_token_usage_aggregated db uid s e tf"
proof -
  have "filter (where_clause uid s e) (filter (\<lambda>r. user_id r = uid) db)
        = filter (where_clause uid s e) db"
    by (auto simp: where_clause_def intro: filter_cong)
  then show ?thesis
    by (simp add: get_token_usage_aggregated_def usage_query_def breakdown_query_def)
qed

lemma handler_scope:
  "(\<forall>q\<in>set (snd (get_token_usage db sd ed tf u)). bound_user_id q = id_user u)
   \<and> get_token_usage (filter (\<lambda>r. user_id r = id_user u) db) sd ed tf u
       = get_token_usage db sd ed tf u"
  by (simp add: get_token_usage_def Let_def aggregated_trace aggregated_own_rows
      split: option.splits)

lemma route_scope:
  "(\<forall>q\<in>set (snd (token_usage_route db req (Some u))). bound_user_id q = id_user u)
   \<and> token_usage_route (filter (\<lambda>r. user_id r = id_user u) db) req (Some u)
       = token_usage_route db req (Some u)"
  using handler_scope [of db _ _ _ u]
  by (simp add: token_usage_route_def get_current_user_def Let_def split: option.splits)

lemma route_unauthenticated:
  "token_usage_route db req None
     = (\<lparr>status_code = 401, body = Detail ''Not authenticated''\<rparr>, [])"
  by (simp add: token_usage_route_def get_current_user_def)

lemma router_scope:
  "(\<forall>q\<in>set (snd (router other db req (Some u))). bound_user_id q = id_user u)
   \<and> router other (filter (\<lambda>r. user_id r = id_user u) db) req (Some u)
       = router other db req (Some u)"
  using route_scope [of db req u] by (simp add: router_def)

lemma router_unauthenticated:
  "snd (router other db req None) = [] \<and> router other db' req None = router other db req None"
  by (simp add: router_def route_unauthenticated)

lemma id_user_new_User [simp]: "id_user (new_User i n rs) = i"
  by (simp add: new_User_def)

lemma app_public:
  assumes "public_path (path req)"
  shows "snd (app env jd other db req) = []"
    and "app env jd other db' req = app env jd other db req"
  using router_unauthenticated [of other db req db']
  by (simp_all add: app_def dispatch_public [OF assms])

lemma has_permitted_role_list:
  "has_permitted_role (JArr rs) = Some (JStr ''user'' \<in> set rs \<or> JStr ''admin'' \<in> set rs)"
  by (cases "JStr ''user'' \<in> set rs") (simp_all add: has_permitted_role_def)

lemma route_ok:
  assumes "query_get (query_params req) ''start_date'' = Some sd"
    and "query_get (query_params req) ''end_date'' = Some ed"
    and "query_get (query_params req) ''timeframe'' = None \<and> tf = ''daily''
         \<or> query_get (query_params req) ''timeframe'' = Some tf \<and> timeframe_regex_match tf"
    and "strptime_ymd sd = Some s" and "strptime_ymd ed = Some e" and "s \<le> e"
  shows "token_usage_route db req (Some u)
       = (\<lparr>status_code = 200,
           body = UsageBody (fst (fst (get_token_usage_aggregated db (id_user u) s e tf)))
                            (snd (fst (get_token_usage_aggregated db (id_user u) s e tf)))\<rparr>,
          snd (get_token_usage_aggregated db (id_user u) s e tf))"
  using assms
  by (auto simp: token_usage_route_def get_current_user_def get_token_usage_def Let_def
      not_less [symmetric])

lemma query_get_append_timeframe:
  "query_get (qs @ [(''timeframe'', v)]) k
     = (if k = ''timeframe'' then Some v else query_get qs k)"
  by (simp add: query_get_def)

lemma route_default_timeframe:
  assumes "query_get (query_params req) ''timeframe'' = None"
  shows "token_usage_route db
           (req\<lparr>query_params := query_params req @ [(''timeframe'', ''daily'')]\<rparr>) su
       = token_usage_route db req su"
  using assms
  by (cases su)
     (simp_all add: token_usage_route_def get_current_user_def Let_def
        query_get_append_timeframe timeframe_regex_match_def split: option.splits)

lemma regex_rejects:
  assumes "tf \<noteq> ''daily''" "tf \<noteq> ''weekly''" "tf \<noteq> ''monthly''"
    and "tf = [] \<or> last tf \<noteq> CHR 0x0A"
  shows "\<not> timeframe_regex_match tf"
  using assms by (auto simp: timeframe_regex_match_def)

lemma date_of_mono: "a \<le> b \<Longrightarrow> date_of a \<le> date_of b"
  unfolding less_eq_datetime_def dt_key_def date_of_def
  by (auto simp: less_eq_prod_def less_prod_def)

lemma where_clause_dates:
  assumes "where_clause uid s e r"
  shows "user_id r = uid \<and> date_of s \<le> date_of (usage_time r)
         \<and> date_of (usage_time r) \<le> date_of e"
  using assms by (simp add: where_clause_def date_of_mono)

lemma aggregated_no_rows:
  assumes "matching_rows db uid s e = []"
  shows "fst (get_token_usage_aggregated db uid s e tf) = ([], [])"
  using assms
  by (simp add: get_token_usage_aggregated_def usage_query_def breakdown_query_def
      matching_rows_def Let_def)

lemma sort_remdups_set:
  fixes xs ys :: "'a::linorder list"
  assumes "set xs = set ys"
  shows "sort (remdups xs) = sort (remdups ys)"
  by (rule sorted_distinct_set_unique) (simp_all add: assms)

lemma sum_list_perm:
  fixes g :: "'a \<Rightarrow> int"
  assumes "mset xs = mset ys"
  shows "sum_list (map g xs) = sum_list (map g ys)"
proof -
  have "sum_list (map g xs) = sum_mset (image_mset g (mset xs))"
    by (simp add: sum_mset_sum_list [symmetric])
  also have "\<dots> = sum_mset (image_mset g (mset ys))"
    by (simp only: assms)
  also have "\<dots> = sum_list (map g ys)"
    by (simp add: sum_mset_sum_list [symmetric])
  finally show ?thesis .
qed

lemma matching_rows_perm:
  assumes "mset db = mset db'"
  shows "mset (matching_rows db uid s e) = mset (matching_rows db' uid s e)"
  using assms by (simp add: matching_rows_def)

lemma bucket_rows_perm:
  assumes "mset db = mset db'"
  shows "mset (bucket_rows db u uid s e p) = mset (bucket_rows db' u uid s e p)"
  using matching_rows_perm [OF assms, of uid s e] by (simp add: bucket_rows_def)

lemma bucket_starts_perm:
  assumes "mset db = mset db'"
  shows "bucket_starts db u uid s e = bucket_starts db' u uid s e"
  unfolding bucket_starts_def
  using mset_eq_setD [OF matching_rows_perm [OF assms, of uid s e]]
  by (intro sort_remdups_set) simp

lemma bucket_activities_perm:
  assumes "mset db = mset db'"
  shows "bucket_activities db u uid s e p = bucket_activities db' u uid s e p"
  unfolding bucket_activities_def
  using mset_eq_setD [OF bucket_rows_perm [OF assms, of u uid s e p]]
  by (intro sort_remdups_set) simp

lemma activity_total_perm:
  assumes "mset db = mset db'"
  shows "activity_total db u uid s e p a = activity_total db' u uid s e p a"
  unfolding activity_total_def
  using bucket_rows_perm [OF assms, of u uid s e p]
  by (intro sum_list_perm) simp

lemma aggregated_perm:
  assumes "mset db = mset db'"
  shows "fst (get_token_usage_aggregated db uid s e tf)
       = fst (get_token_usage_aggregated db' uid s e tf)"
proof (rule prod_eqI)
  show "fst (fst (get_token_usage_aggregated db uid s e tf))
      = fst (fst (get_token_usage_aggregated db' uid s e tf))"
    unfolding usage_data_closed bucket_starts_perm [OF assms]
    using sum_list_perm [OF bucket_rows_perm [OF assms]] by simp
  show "snd (fst (get_token_usage_aggregated db uid s e tf))
      = snd (fst (get_token_usage_aggregated db' uid s e tf))"
    unfolding breakdowns_closed bucket_starts_perm [OF assms]
      bucket_activities_perm [OF assms] activity_total_perm [OF assms]
    by simp
qed

text \<open>The daily aggregation, written out on the rows of the table.\<close>

lemma trunc_unit_of_daily: "trunc_unit_of ''daily'' = Day"
  by (simp add: trunc_unit_of_def)

lemma period_of_Day: "period_of Day = (\<lambda>r. midnight (date_of (usage_time r)))"
  by (rule ext) (simp add: period_of_def)

lemma aggregated_daily_explicit:
  "get_token_usage_aggregated db uid s e ''daily'' =
     (let rows = filter (where_clause uid s e) db;
          days = sort (remdups (map (\<lambda>r. midnight (date_of (usage_time r))) rows))
      in ((map (\<lambda>p. \<lparr>period = strftime_ymd p,
                       total_tokens =
                         sum_list (map tokens_used
                           (filter (\<lambda>r. midnight (date_of (usage_time r)) = p) rows))\<rparr>)
               days,
           map (\<lambda>p. (strftime_ymd p,
                      map (\<lambda>a. (a, sum_list (map tokens_used
                                      (filter (\<lambda>r. activity r = a)
                                         (filter (\<lambda>r. midnight (date_of (usage_time r)) = p)
                                            rows)))))
                          (sort (remdups (map activity
                             (filter (\<lambda>r. midnight (date_of (usage_time r)) = p) rows))))))
               days),
          [UsageQuery Day uid s e, BreakdownQuery Day uid s e]))"
proof -
  have 1: "fst (fst (get_token_usage_aggregated db uid s e ''daily''))
      = map (\<lambda>p. \<lparr>period = strftime_ymd p,
               total_tokens = sum_list (map tokens_used (bucket_rows db Day uid s e p))\<rparr>)
          (bucket_starts db Day uid s e)"
    by (simp only: usage_data_closed trunc_unit_of_daily)
  have 2: "snd (fst (get_token_usage_aggregated db uid s e ''daily''))
      = map (\<lambda>p. (strftime_ymd p,
               map (\<lambda>a. (a, activity_total db Day uid s e p a))
                   (bucket_activities db Day uid s e p)))
          (bucket_starts db Day uid s e)"
    by (simp only: breakdowns_closed trunc_unit_of_daily)
  have 3: "snd (get_token_usage_aggregated db uid s e ''daily'')
      = [UsageQuery Day uid s e, BreakdownQuery Day uid s e]"
    by (simp only: aggregated_trace trunc_unit_of_daily)
  have "get_token_usage_aggregated db uid s e ''daily''
      = ((map (\<lambda>p. \<lparr>period = strftime_ymd p,
               total_tokens = sum_list (map tokens_used (bucket_rows db Day uid s e p))\<rparr>)
          (bucket_starts db Day uid s e),
          map (\<lambda>p. (strftime_ymd p,
               map (\<lambda>a. (a, activity_total db Day uid s e p a))
                   (bucket_activities db Day uid s e p)))
          (bucket_starts db Day uid s e)),
         [UsageQuery Day uid s e, BreakdownQuery Day uid s e])"
    by (rule prod_eqI, rule prod_eqI) (simp_all only: 1 2 3 fst_conv snd_conv)
  then show ?thesis
    by (simp add: Let_def bucket_starts_def bucket_rows_def bucket_activities_def
        activity_total_def matching_rows_def period_of_Day)
qed

subsection \<open>What the checks before the queries do guarantee\<close>

text \<open>
  A request with no \<open>Authorization\<close> header, with a header that is not a bearer
  credential, with a credential the verifier rejects, with a credential lacking a subject
  or a display name, or with a credential on whose roles claim the role check of the
  middleware answers no, executes no statement on the store; outside the documentation
  paths its status is 401 or 403.
\<close>

lemma denied_requests_execute_nothing:
  assumes "authorization req = None
     \<or> (\<exists>h. authorization req = Some h \<and> \<not> startswith h ''Bearer '')
     \<or> (\<exists>h. authorization req = Some h
           \<and> jwt_decode (drop 7 h) (JWT_SECRET_KEY environ) [JWT_ALGORITHM environ]
               = Inl JWTError)
     \<or> (\<exists>h payload. authorization req = Some h
           \<and> jwt_decode (drop 7 h) (JWT_SECRET_KEY environ) [JWT_ALGORITHM environ]
               = Inr payload
           \<and> (claim_sub payload = None \<or> claim_sub payload = Some []
                \<or> claim_username payload = None
                \<or> (\<exists>n. claim_username payload = Some n \<and> \<not> truthy n)))
     \<or> (\<exists>h payload. authorization req = Some h
           \<and> jwt_decode (drop 7 h) (JWT_SECRET_KEY environ) [JWT_ALGORITHM environ]
               = Inr payload
           \<and> has_permitted_role (payload_roles payload) = Some False)"
  shows "snd (app environ jwt_decode other db req) = []
       \<and> (\<not> public_path (path req) \<longrightarrow>
            status_code (fst (app environ jwt_decode other db req)) = 401
          \<or> status_code (fst (app environ jwt_decode other db req)) = 403)"
proof (cases "public_path (path req)")
  case True
  then show ?thesis using app_public(1) [OF True] by simp
next
  case np: False
  have "\<exists>code detail. (code = 401 \<or> code = 403)
          \<and> dispatch environ jwt_decode (router other db) req = JSONResponse code detail"
  proof (cases "authorization req")
    case None
    then show ?thesis using dispatch_no_header [OF np None] by blast
  next
    case (Some h)
    show ?thesis
    proof (cases "startswith h ''Bearer ''")
      case False
      then show ?thesis using dispatch_bad_header [OF np Some False] by blast
    next
      case b: True
      from assms Some b consider
        (err) "jwt_decode (drop 7 h) (JWT_SECRET_KEY environ) [JWT_ALGORITHM environ]
                 = Inl JWTError"
      | (claims) payload where
          "jwt_decode (drop 7 h) (JWT_SECRET_KEY environ) [JWT_ALGORITHM environ] = Inr payload"
          "claim_sub payload = None \<or> claim_sub payload = Some []
            \<or> claim_username payload = None
            \<or> (\<exists>n. claim_username payload = Some n \<and> \<not> truthy n)"
      | (role) payload where
          "jwt_decode (drop 7 h) (JWT_SECRET_KEY environ) [JWT_ALGORITHM environ] = Inr payload"
          "has_permitted_role (payload_roles payload) = Some False"
        by auto
      then show ?thesis
      proof cases
        case err
        show ?thesis
          using dispatch_jwt_error [where jd = jwt_decode and env = environ and h = h,
              OF np Some b err] by blast
      next
        case claims
        show ?thesis
          using dispatch_missing_claims [where jd = jwt_decode and env = environ and h = h,
              OF np Some b claims] by blast
      next
        case role
        show ?thesis
        proof (cases "claim_sub payload = None \<or> claim_sub payload = Some []
            \<or> claim_username payload = None
            \<or> (\<exists>n. claim_username payload = Some n \<and> \<not> truthy n)")
          case True
          show ?thesis
            using dispatch_missing_claims [where jd = jwt_decode and env = environ and h = h,
                OF np Some b role(1) True] by blast
        next
          case False
          then obtain i n where c: "claim_sub payload = Some i" "i \<noteq> []"
              "claim_username payload = Some n" "truthy n"
            by auto
          show ?thesis
            using dispatch_roles [where jd = jwt_decode and env = environ and h = h,
                OF np Some b role(1) c] role(2)
            by auto
        qed
      qed
    qed
  qed
  then show ?thesis using np by (auto simp: app_def)
qed

text \<open>
  The values of \<open>timeframe\<close> that the pattern of the route lets through are the three
  names and the three names followed by one line feed; a request carrying any other value
  is answered 422 and executes no statement.
\<close>

lemma unmatched_timeframe_executes_nothing:
  assumes "query_get (query_params req) ''timeframe'' = Some tf"
    and "\<not> timeframe_regex_match tf"
  shows "status_code (fst (token_usage_route db req (Some user))) = 422
       \<and> snd (token_usage_route db req (Some user)) = []"
  using assms
  by (simp add: token_usage_route_def get_current_user_def Let_def split: option.splits)

lemma timeframe_regex_match_iff:
  "timeframe_regex_match tf \<longleftrightarrow>
     tf \<in> set [''daily'', ''weekly'', ''monthly'',
                ''daily'' @ [CHR 0x0A], ''weekly'' @ [CHR 0x0A], ''monthly'' @ [CHR 0x0A]]"
proof (cases tf rule: rev_cases)
  case Nil
  then show ?thesis by (simp add: timeframe_regex_match_def)
next
  case (snoc core c)
  then show ?thesis
    by (auto simp: timeframe_regex_match_def snoc_eq_iff_butlast)
qed

section \<open>The example, evaluated\<close>

lemma le_DateTime:
  "DateTime y m d h mi s us \<le> DateTime y' m' d' h' mi' s' us' \<longleftrightarrow>
     (y < y' \<or> y = y' \<and> (m < m' \<or> m = m' \<and> (d < d' \<or> d = d' \<and> (h < h' \<or> h = h' \<and>
       (mi < mi' \<or> mi = mi' \<and> (s < s' \<or> s = s' \<and> us \<le> us'))))))"
  unfolding less_eq_datetime_def dt_key_def by auto

lemma less_DateTime:
  "DateTime y m d h mi s us < DateTime y' m' d' h' mi' s' us' \<longleftrightarrow>
     (y < y' \<or> y = y' \<and> (m < m' \<or> m = m' \<and> (d < d' \<or> d = d' \<and> (h < h' \<or> h = h' \<and>
       (mi < mi' \<or> mi = mi' \<and> (s < s' \<or> s = s' \<and> us < us'))))))"
  unfolding less_datetime_def dt_key_def by auto

lemmas eval_simps =
  le_DateTime less_DateTime example_db_def matching_rows_def where_clause_def
  usage_query_def breakdown_query_def period_of_def midnight_def date_of_def Let_def
  strftime_ymd_def zfill_def dec.simps digit_char_def
  get_token_usage_aggregated_def trunc_unit_of_def add_breakdown_row_def
  dict_set_def dict_modify_def dict_keys_def

lemma example_daily:
  "fst (get_token_usage_aggregated example_db ''testuser''
          (DateTime 2024 6 10 0 0 0 0) (DateTime 2024 6 12 0 0 0 0) ''daily'')
   = ([\<lparr>period = ''2024-06-10'', total_tokens = 150\<rparr>,
       \<lparr>period = ''2024-06-11'', total_tokens = 200\<rparr>],
      [(''2024-06-10'', [(''api'', 50), (''chat'', 100)]),
       (''2024-06-11'', [(''api'', 200)])])"
  by (simp add: eval_simps)

lemma strptime_example_start: "strptime_ymd ''2024-06-10'' = Some (DateTime 2024 6 10 0 0 0 0)"
  by code_simp

lemma strptime_example_end: "strptime_ymd ''2024-06-12'' = Some (DateTime 2024 6 12 0 0 0 0)"
  by code_simp

lemma example_daily_full:
  "get_token_usage_aggregated example_db ''testuser''
          (DateTime 2024 6 10 0 0 0 0) (DateTime 2024 6 12 0 0 0 0) ''daily''
   = (([\<lparr>period = ''2024-06-10'', total_tokens = 150\<rparr>,
        \<lparr>period = ''2024-06-11'', total_tokens = 200\<rparr>],
       [(''2024-06-10'', [(''api'', 50), (''chat'', 100)]),
        (''2024-06-11'', [(''api'', 200)])]),
      [UsageQuery Day ''testuser'' (DateTime 2024 6 10 0 0 0 0) (DateTime 2024 6 12 0 0 0 0),
       BreakdownQuery Day ''testuser'' (DateTime 2024 6 10 0 0 0 0) (DateTime 2024 6 12 0 0 0 0)])"
  by (rule prod_eqI) (simp_all add: example_daily aggregated_trace trunc_unit_of_def)

lemma example_environ_key:
  "JWT_SECRET_KEY example_environ = ''k3y-from-the-vault''"
  "JWT_ALGORITHM example_environ = ''HS256''"
  by (simp_all add: JWT_SECRET_KEY_def JWT_ALGORITHM_def example_environ_def)

lemma example_request_parts [simp]:
  "path (example_request token qs) = ''/api/token-usage''"
  "http_method (example_request token qs) = ''GET''"
  "authorization (example_request token qs) = Some (''Bearer '' @ token)"
  "query_params (example_request token qs) = qs"
  by (simp_all add: example_request_def)

lemma api_path_not_public: "\<not> public_path ''/api/token-usage''"
  by (simp add: public_path_def startswith_def)

lemma bearer_prefix: "startswith (''Bearer '' @ token) ''Bearer ''"
  by (simp add: startswith_def)

lemma example_alice_passes:
  "app example_environ (example_decode ''k3y-from-the-vault'') other db
       (example_request ''alice'' qs)
   = token_usage_route db (example_request ''alice'' qs) (Some example_user)"
proof -
  let ?p = "\<lparr>claim_sub = Some ''testuser'', claim_username = Some (JStr ''testuser''),
            claim_roles = Some (JArr [JStr ''user''])\<rparr>"
  have d: "example_decode ''k3y-from-the-vault'' (drop 7 (''Bearer '' @ ''alice''))
             (JWT_SECRET_KEY example_environ) [JWT_ALGORITHM example_environ] = Inr ?p"
    by (simp add: example_decode_def example_environ_key)
  have np: "\<not> public_path (path (example_request ''alice'' qs))"
    by (simp add: api_path_not_public)
  have r: "payload_roles ?p = JArr [JStr ''user'']"
    by (simp add: payload_roles_def)
  show ?thesis
    using dispatch_roles [where jd = "example_decode ''k3y-from-the-vault''"
        and env = example_environ and h = "''Bearer '' @ ''alice''"
        and req = "example_request ''alice'' qs" and payload = ?p
        and i = "''testuser''" and n = "JStr ''testuser''" and cn = "router other db",
        OF np _ bearer_prefix d]
    by (simp add: app_def r has_permitted_role_list example_user_def router_def)
qed

lemma example_route_daily:
  assumes "query_get qs ''start_date'' = Some ''2024-06-10''"
    and "query_get qs ''end_date'' = Some ''2024-06-12''"
    and "query_get qs ''timeframe'' = None \<or> query_get qs ''timeframe'' = Some ''daily''"
  shows "token_usage_route example_db (example_request token qs) (Some example_user)
   = (\<lparr>status_code = 200,
       body = UsageBody [\<lparr>period = ''2024-06-10'', total_tokens = 150\<rparr>,
                         \<lparr>period = ''2024-06-11'', total_tokens = 200\<rparr>]
                        [(''2024-06-10'', [(''api'', 50), (''chat'', 100)]),
                         (''2024-06-11'', [(''api'', 200)])]\<rparr>,
      [UsageQuery Day ''testuser'' (DateTime 2024 6 10 0 0 0 0) (DateTime 2024 6 12 0 0 0 0),
       BreakdownQuery Day ''testuser'' (DateTime 2024 6 10 0 0 0 0) (DateTime 2024 6 12 0 0 0 0)])"
proof -
  have le: "DateTime 2024 6 10 0 0 0 0 \<le> DateTime 2024 6 12 0 0 0 0"
    by (simp add: le_DateTime)
  have tf: "query_get (query_params (example_request token qs)) ''timeframe'' = None
              \<and> ''daily'' = ''daily''
         \<or> query_get (query_params (example_request token qs)) ''timeframe'' = Some ''daily''
              \<and> timeframe_regex_match ''daily''"
    using assms(3) by (simp add: timeframe_regex_match_def)
  show ?thesis
    using route_ok [where req = "example_request token qs" and u = example_user
        and db = example_db, OF _ _ tf strptime_example_start strptime_example_end le]
      assms(1,2)
    by (simp add: example_daily_full example_user_def)
qed

lemma example_guest_payload:
  "example_decode ''k3y-from-the-vault'' (drop 7 (''Bearer '' @ ''guest''))
     (JWT_SECRET_KEY example_environ) [JWT_ALGORITHM example_environ]
   = Inr \<lparr>claim_sub = Some ''testuser'', claim_username = Some (JStr ''testuser''),
          claim_roles = Some (JArr [JStr ''guest''])\<rparr>"
  by (simp add: example_decode_def example_environ_key)

lemma example_guest_status:
  "status_code (fst (app example_environ (example_decode ''k3y-from-the-vault'') other db
       (example_request ''guest'' qs))) = 403"
proof -
  let ?p = "\<lparr>claim_sub = Some ''testuser'', claim_username = Some (JStr ''testuser''),
            claim_roles = Some (JArr [JStr ''guest''])\<rparr>"
  have np: "\<not> public_path (path (example_request ''guest'' qs))"
    by (simp add: api_path_not_public)
  have r: "payload_roles ?p = JArr [JStr ''guest'']"
    by (simp add: payload_roles_def)
  show ?thesis
    using dispatch_roles [where jd = "example_decode ''k3y-from-the-vault''"
        and env = example_environ and h = "''Bearer '' @ ''guest''"
        and req = "example_request ''guest'' qs" and payload = ?p
        and i = "''testuser''" and n = "JStr ''testuser''" and cn = "router other db",
        OF np _ bearer_prefix example_guest_payload]
    by (simp add: app_def r has_permitted_role_list)
qed

lemma example_route_omitted:
  "query_get example_range ''timeframe'' = None"
  "query_get example_range ''start_date'' = Some ''2024-06-10''"
  "query_get example_range ''end_date'' = Some ''2024-06-12''"
  by (simp_all add: query_get_def example_range_def)

lemma example_range_le: "DateTime 2024 6 10 0 0 0 0 \<le> DateTime 2024 6 12 0 0 0 0"
  by (simp add: le_DateTime)

lemma example_alice_passes_any:
  assumes "JWT_SECRET_KEY env = k" and "JWT_ALGORITHM env = ''HS256''"
  shows "app env (example_decode k) other db (example_request ''alice'' qs)
   = token_usage_route db (example_request ''alice'' qs) (Some example_user)"
proof -
  let ?p = "\<lparr>claim_sub = Some ''testuser'', claim_username = Some (JStr ''testuser''),
            claim_roles = Some (JArr [JStr ''user''])\<rparr>"
  have d: "example_decode k (drop 7 (''Bearer '' @ ''alice''))
             (JWT_SECRET_KEY env) [JWT_ALGORITHM env] = Inr ?p"
    by (simp add: example_decode_def assms)
  have np: "\<not> public_path (path (example_request ''alice'' qs))"
    by (simp add: api_path_not_public)
  have r: "payload_roles ?p = JArr [JStr ''user'']"
    by (simp add: payload_roles_def)
  show ?thesis
    using dispatch_roles [where jd = "example_decode k"
        and env = env and h = "''Bearer '' @ ''alice''"
        and req = "example_request ''alice'' qs" and payload = ?p
        and i = "''testuser''" and n = "JStr ''testuser''" and cn = "router other db",
        OF np _ bearer_prefix d]
    by (simp add: app_def r has_permitted_role_list example_user_def router_def)
qed

lemma example_route_daily_for:
  assumes "id_user u = ''testuser''"
    and "query_get qs ''start_date'' = Some ''2024-06-10''"
    and "query_get qs ''end_date'' = Some ''2024-06-12''"
    and "query_get qs ''timeframe'' = None \<and> tf = ''daily''
         \<or> query_get qs ''timeframe'' = Some tf \<and> timeframe_regex_match tf"
    and "trunc_unit_of tf = Day"
  shows "token_usage_route example_db (example_request token qs) (Some u)
   = (\<lparr>status_code = 200,
       body = UsageBody [\<lparr>period = ''2024-06-10'', total_tokens = 150\<rparr>,
                         \<lparr>period = ''2024-06-11'', total_tokens = 200\<rparr>]
                        [(''2024-06-10'', [(''api'', 50), (''chat'', 100)]),
                         (''2024-06-11'', [(''api'', 200)])]\<rparr>,
      [UsageQuery Day ''testuser'' (DateTime 2024 6 10 0 0 0 0) (DateTime 2024 6 12 0 0 0 0),
       BreakdownQuery Day ''testuser'' (DateTime 2024 6 10 0 0 0 0) (DateTime 2024 6 12 0 0 0 0)])"
proof -
  have "trunc_unit_of tf = trunc_unit_of ''daily''"
    using assms(5) by (simp add: trunc_unit_of_def)
  then have d: "get_token_usage_aggregated example_db ''testuser''
          (DateTime 2024 6 10 0 0 0 0) (DateTime 2024 6 12 0 0 0 0) tf
      = get_token_usage_aggregated example_db ''testuser''
          (DateTime 2024 6 10 0 0 0 0) (DateTime 2024 6 12 0 0 0 0) ''daily''"
    by (simp add: get_token_usage_aggregated_def)
  have q: "query_get (query_params (example_request token qs)) ''start_date''
             = Some ''2024-06-10''"
    "query_get (query_params (example_request token qs)) ''end_date'' = Some ''2024-06-12''"
    "query_get (query_params (example_request token qs)) ''timeframe'' = None \<and> tf = ''daily''
         \<or> query_get (query_params (example_request token qs)) ''timeframe'' = Some tf
            \<and> timeframe_regex_match tf"
    using assms(2-4) by simp_all
  show ?thesis
    unfolding route_ok [where req = "example_request token qs" and u = u
        and db = example_db and tf = tf, OF q strptime_example_start strptime_example_end
        example_range_le] assms(1) d example_daily_full
    by simp
qed

lemma example_intern_passes:
  "app example_environ (example_decode ''k3y-from-the-vault'') other db
       (example_request ''intern'' qs)
   = token_usage_route db (example_request ''intern'' qs)
       (Some (new_User ''testuser'' (JStr ''testuser'') (JStr ''superuser'')))"
proof -
  let ?p = "\<lparr>claim_sub = Some ''testuser'', claim_username = Some (JStr ''testuser''),
            claim_roles = Some (JStr ''superuser'')\<rparr>"
  have d: "example_decode ''k3y-from-the-vault'' (drop 7 (''Bearer '' @ ''intern''))
             (JWT_SECRET_KEY example_environ) [JWT_ALGORITHM example_environ] = Inr ?p"
    by (simp add: example_decode_def example_environ_key)
  have np: "\<not> public_path (path (example_request ''intern'' qs))"
    by (simp add: api_path_not_public)
  have r: "payload_roles ?p = JStr ''superuser''"
    by (simp add: payload_roles_def)
  have h: "has_permitted_role (JStr ''superuser'') = Some True"
    by (simp add: has_permitted_role_def startswith_def)
  show ?thesis
    using dispatch_roles [where jd = "example_decode ''k3y-from-the-vault''"
        and env = example_environ and h = "''Bearer '' @ ''intern''"
        and req = "example_request ''intern'' qs" and payload = ?p
        and i = "''testuser''" and n = "JStr ''testuser''" and cn = "router other db",
        OF np _ bearer_prefix d]
    by (simp add: app_def r h router_def)
qed

section \<open>The claims\<close>

text \<open>
  C1. Whenever the middleware has decoded a credential with subject \<open>subject\<close>, every
  statement the application executes for the request is bound to that subject as its
  user id, whatever the query parameters are, and the whole outcome (response and
  statements) is the one the application gives on the table restricted to the rows of
  that subject: no row of another user contributes.
\<close>

theorem query_scope_is_subject:
  assumes "authorization req = Some h"
    and "jwt_decode (drop 7 h) (JWT_SECRET_KEY environ) [JWT_ALGORITHM environ] = Inr payload"
    and "claim_sub payload = Some subject"
  shows "(\<forall>q\<in>set (snd (app environ jwt_decode other db req)). bound_user_id q = subject)
       \<and> app environ jwt_decode other (filter (\<lambda>r. user_id r = subject) db) req
           = app environ jwt_decode other db req"
proof -
  let ?db' = "filter (\<lambda>r. user_id r = subject) db"
  consider
    (public) "public_path (path req)"
  | (denied) code detail where
      "\<forall>cn. dispatch environ jwt_decode cn req = JSONResponse code detail"
  | (passed) n where
      "\<forall>cn. dispatch environ jwt_decode cn req
            = cn req (Some (new_User subject n (payload_roles payload)))"
    using dispatch_outcome [of req environ jwt_decode] assms by auto
  then show ?thesis
  proof cases
    case public
    then show ?thesis using app_public [OF public, of environ jwt_decode other] by simp
  next
    case denied
    then show ?thesis by (simp add: app_def)
  next
    case passed
    then show ?thesis
      using router_scope [of other db req "new_User subject n (payload_roles payload)"]
      by (simp add: app_def)
  qed
qed

theorem query_scope_is_subject_witness:
  "app example_environ (example_decode ''k3y-from-the-vault'') example_other
       (filter (\<lambda>r. user_id r = ''testuser'') example_db)
       (example_request ''alice'' (example_range @ [(''user_id'', ''otheruser'')]))
   = app example_environ (example_decode ''k3y-from-the-vault'') example_other example_db
       (example_request ''alice'' (example_range @ [(''user_id'', ''otheruser'')]))
   \<and> snd (app example_environ (example_decode ''k3y-from-the-vault'') example_other example_db
       (example_request ''alice'' (example_range @ [(''user_id'', ''otheruser'')])))
     = [UsageQuery Day ''testuser'' (DateTime 2024 6 10 0 0 0 0) (DateTime 2024 6 12 0 0 0 0),
        BreakdownQuery Day ''testuser'' (DateTime 2024 6 10 0 0 0 0)
          (DateTime 2024 6 12 0 0 0 0)]"
proof -
  let ?req = "example_request ''alice'' (example_range @ [(''user_id'', ''otheruser'')])"
  let ?p = "\<lparr>claim_sub = Some ''testuser'', claim_username = Some (JStr ''testuser''),
            claim_roles = Some (JArr [JStr ''user''])\<rparr>"
  have a: "authorization ?req = Some (''Bearer '' @ ''alice'')" by simp
  have d: "example_decode ''k3y-from-the-vault'' (drop 7 (''Bearer '' @ ''alice''))
             (JWT_SECRET_KEY example_environ) [JWT_ALGORITHM example_environ] = Inr ?p"
    by (simp add: example_decode_def example_environ_key)
  have s: "claim_sub ?p = Some ''testuser''" by simp
  note t = query_scope_is_subject [where jwt_decode = "example_decode ''k3y-from-the-vault''"
      and environ = example_environ and other = example_other and db = example_db,
      OF a d s]
  have q: "query_get (example_range @ [(''user_id'', ''otheruser'')]) ''start_date''
             = Some ''2024-06-10''"
    "query_get (example_range @ [(''user_id'', ''otheruser'')]) ''end_date''
             = Some ''2024-06-12''"
    "query_get (example_range @ [(''user_id'', ''otheruser'')]) ''timeframe'' = None"
    by (simp_all add: query_get_def example_range_def)
  have e: "snd (app example_environ (example_decode ''k3y-from-the-vault'') example_other
             example_db ?req)
     = [UsageQuery Day ''testuser'' (DateTime 2024 6 10 0 0 0 0) (DateTime 2024 6 12 0 0 0 0),
        BreakdownQuery Day ''testuser'' (DateTime 2024 6 10 0 0 0 0)
          (DateTime 2024 6 12 0 0 0 0)]"
    by (simp add: example_alice_passes example_route_daily [OF q(1,2) disjI1 [OF q(3)]])
  from t e show ?thesis by blast
qed

text \<open>
  C2. For every user id, date range and timeframe, the breakdown has exactly the bucket
  keys of the series, in the same order and each once, and for every entry of the series
  the values of the breakdown stored under its bucket key sum to its \<open>total_tokens\<close>.
\<close>

theorem breakdown_sums_match_series:
  "dict_keys (snd (fst (get_token_usage_aggregated db uid s e tf)))
     = map period (fst (fst (get_token_usage_aggregated db uid s e tf)))
   \<and> distinct (map period (fst (fst (get_token_usage_aggregated db uid s e tf))))
   \<and> (\<forall>en \<in> set (fst (fst (get_token_usage_aggregated db uid s e tf))).
         \<exists>acts. map_of (snd (fst (get_token_usage_aggregated db uid s e tf))) (period en)
                  = Some acts
              \<and> sum_list (map snd acts) = total_tokens en)"
proof -
  let ?u = "trunc_unit_of tf"
  let ?ps = "bucket_starts db ?u uid s e"
  let ?H = "\<lambda>p. (strftime_ymd p,
               map (\<lambda>a. (a, activity_total db ?u uid s e p a))
                   (bucket_activities db ?u uid s e p))"
  let ?E = "\<lambda>p. \<lparr>period = strftime_ymd p,
               total_tokens = sum_list (map tokens_used (bucket_rows db ?u uid s e p))\<rparr>"
  have series: "fst (fst (get_token_usage_aggregated db uid s e tf)) = map ?E ?ps"
    by (rule usage_data_closed)
  have bd: "snd (fst (get_token_usage_aggregated db uid s e tf)) = map ?H ?ps"
    by (rule breakdowns_closed)
  have keys: "dict_keys (map ?H ?ps) = map period (map ?E ?ps)"
    by (simp add: dict_keys_def comp_def)
  have dist: "distinct (map period (map ?E ?ps))"
    using bucket_starts_distinct [of db ?u uid s e] bucket_starts_inj [of db ?u uid s e]
    by (simp add: distinct_map comp_def)
  have sums: "\<exists>acts. map_of (map ?H ?ps) (period en) = Some acts
                \<and> sum_list (map snd acts) = total_tokens en"
    if "en \<in> set (map ?E ?ps)" for en
  proof -
    from that obtain p where p: "p \<in> set ?ps" "en = ?E p" by auto
    have "distinct (map fst (map ?H ?ps))"
      using dist by (simp add: comp_def)
    moreover have "?H p \<in> set (map ?H ?ps)" using p(1) by simp
    ultimately have "map_of (map ?H ?ps) (strftime_ymd p) = Some (snd (?H p))"
      by (intro map_of_is_SomeI) simp_all
    moreover have "sum_list (map snd (snd (?H p))) = total_tokens en"
      using activity_totals_sum [of db ?u uid s e p] p(2) by (simp add: comp_def)
    ultimately show ?thesis using p(2) by simp
  qed
  show ?thesis
    unfolding series bd using keys dist sums by blast
qed

theorem breakdown_sums_match_series_witness:
  "dict_keys (snd (fst (get_token_usage_aggregated example_db ''testuser''
          (DateTime 2024 6 10 0 0 0 0) (DateTime 2024 6 12 0 0 0 0) ''daily'')))
     = [''2024-06-10'', ''2024-06-11'']
   \<and> (\<exists>acts. map_of (snd (fst (get_token_usage_aggregated example_db ''testuser''
          (DateTime 2024 6 10 0 0 0 0) (DateTime 2024 6 12 0 0 0 0) ''daily''))) ''2024-06-10''
                  = Some acts
              \<and> sum_list (map snd acts) = 150)"
proof -
  let ?r = "fst (get_token_usage_aggregated example_db ''testuser''
          (DateTime 2024 6 10 0 0 0 0) (DateTime 2024 6 12 0 0 0 0) ''daily'')"
  note t = breakdown_sums_match_series [of example_db "''testuser''"
          "DateTime 2024 6 10 0 0 0 0" "DateTime 2024 6 12 0 0 0 0" "''daily''"]
  have m: "\<lparr>period = ''2024-06-10'', total_tokens = 150\<rparr> \<in> set (fst ?r)"
    unfolding example_daily by simp
  from t have "dict_keys (snd ?r) = map period (fst ?r)" by (rule conjunct1)
  then have k: "dict_keys (snd ?r) = [''2024-06-10'', ''2024-06-11'']"
    unfolding example_daily by simp
  from t have "\<forall>en \<in> set (fst ?r). \<exists>acts. map_of (snd ?r) (period en) = Some acts
              \<and> sum_list (map snd acts) = total_tokens en"
    by (elim conjE)
  from bspec [OF this m] k show ?thesis by simp
qed

text \<open>
  C4, at the failing input. A correctly signed credential of subject \<open>testuser\<close> whose
  roles claim is the string \<open>superuser\<close> holds neither permitted role: the same role
  in a list, \<open>["superuser"]\<close>, is refused by the role check. On a string, however,
  \<open>role in roles\<close> is a substring test, and \<open>user\<close> occurs in \<open>superuser\<close>: the
  request passes the middleware, both statements are executed on the store and the answer
  is 200 with the daily aggregation of the subject's events, where the claim requires a
  denial (401 or 403) with no statement executed.
\<close>

theorem string_roles_pass_role_check:
  "has_permitted_role (JArr [JStr ''superuser'']) = Some False
   \<and> has_permitted_role (JStr ''superuser'') = Some True
   \<and> app example_environ (example_decode ''k3y-from-the-vault'') example_other example_db
       (example_request ''intern'' example_range)
     = (\<lparr>status_code = 200,
         body = UsageBody [\<lparr>period = ''2024-06-10'', total_tokens = 150\<rparr>,
                           \<lparr>period = ''2024-06-11'', total_tokens = 200\<rparr>]
                          [(''2024-06-10'', [(''api'', 50), (''chat'', 100)]),
                           (''2024-06-11'', [(''api'', 200)])]\<rparr>,
        [UsageQuery Day ''testuser'' (DateTime 2024 6 10 0 0 0 0) (DateTime 2024 6 12 0 0 0 0),
         BreakdownQuery Day ''testuser'' (DateTime 2024 6 10 0 0 0 0)
           (DateTime 2024 6 12 0 0 0 0)])"
proof -
  have a: "has_permitted_role (JArr [JStr ''superuser'']) = Some False"
    by (simp add: has_permitted_role_list)
  have b: "has_permitted_role (JStr ''superuser'') = Some True"
    by (simp add: has_permitted_role_def startswith_def)
  have t: "query_get example_range ''timeframe'' = None \<and> ''daily'' = ''daily''
         \<or> query_get example_range ''timeframe'' = Some ''daily''
            \<and> timeframe_regex_match ''daily''"
    by (simp add: example_route_omitted)
  have c: "app example_environ (example_decode ''k3y-from-the-vault'') example_other example_db
       (example_request ''intern'' example_range)
     = (\<lparr>status_code = 200,
         body = UsageBody [\<lparr>period = ''2024-06-10'', total_tokens = 150\<rparr>,
                           \<lparr>period = ''2024-06-11'', total_tokens = 200\<rparr>]
                          [(''2024-06-10'', [(''api'', 50), (''chat'', 100)]),
                           (''2024-06-11'', [(''api'', 200)])]\<rparr>,
        [UsageQuery Day ''testuser'' (DateTime 2024 6 10 0 0 0 0) (DateTime 2024 6 12 0 0 0 0),
         BreakdownQuery Day ''testuser'' (DateTime 2024 6 10 0 0 0 0)
           (DateTime 2024 6 12 0 0 0 0)])"
    unfolding example_intern_passes
    by (rule example_route_daily_for [OF _ example_route_omitted(2,3) t])
       (simp_all add: trunc_unit_of_def)
  from a b c show ?thesis by (intro conjI)
qed


text \<open>
  C7. On a path that is not a documentation path, a bearer credential that the verifier
  accepts, with a non-empty subject and a display name, whose roles are a list
  containing neither \<open>user\<close> nor \<open>admin\<close>, is answered 403 \<open>Insufficient permissions.\<close>
\<close>

theorem forbidden_without_permitted_role:
  assumes "\<not> public_path (path req)"
    and "authorization req = Some h" and "startswith h ''Bearer ''"
    and "jwt_decode (drop 7 h) (JWT_SECRET_KEY environ) [JWT_ALGORITHM environ] = Inr payload"
    and "claim_sub payload = Some i" and "i \<noteq> []"
    and "claim_username payload = Some n" and "truthy n"
    and "payload_roles payload = JArr rs"
    and "JStr ''user'' \<notin> set rs" and "JStr ''admin'' \<notin> set rs"
  shows "app environ jwt_decode other db req = JSONResponse 403 ''Insufficient permissions.''"
  using dispatch_roles [where jd = jwt_decode and env = environ and h = h,
      OF assms(1-8)] assms(9-11)
  by (simp add: app_def has_permitted_role_list)

theorem forbidden_without_permitted_role_witness:
  "app example_environ (example_decode ''k3y-from-the-vault'') example_other example_db
     (example_request ''guest'' example_range)
   = JSONResponse 403 ''Insufficient permissions.''"
proof -
  let ?p = "\<lparr>claim_sub = Some ''testuser'', claim_username = Some (JStr ''testuser''),
            claim_roles = Some (JArr [JStr ''guest''])\<rparr>"
  let ?req = "example_request ''guest'' example_range"
  have np: "\<not> public_path (path ?req)" by (simp add: api_path_not_public)
  have a: "authorization ?req = Some (''Bearer '' @ ''guest'')" by simp
  have r: "payload_roles ?p = JArr [JStr ''guest'']" by (simp add: payload_roles_def)
  show ?thesis
    by (rule forbidden_without_permitted_role [where h = "''Bearer '' @ ''guest''"
          and payload = ?p and i = "''testuser''" and n = "JStr ''testuser''"
          and rs = "[JStr ''guest'']" and req = ?req
          and jwt_decode = "example_decode ''k3y-from-the-vault''"
          and environ = example_environ,
          OF np a bearer_prefix example_guest_payload _ _ _ _ r])
       simp_all
qed

text \<open>
  C10. When an authenticated request carries no \<open>timeframe\<close> parameter, and its dates
  parse and are ordered, the route answers 200 and executes the two statements with the
  unit \<open>day\<close>, bound to the caller's identifier and the parsed dates. The series has one
  entry for each calendar day on which a matching event of the caller falls, in ascending
  order, labelled with that day and holding the sum of the tokens of that day's events;
  the breakdown has, for each such day, the sum per activity of that day's events. The
  whole outcome is the one of the same request with \<open>timeframe=daily\<close> added.
\<close>

theorem omitted_timeframe_is_daily:
  assumes "query_get (query_params req) ''timeframe'' = None"
    and "query_get (query_params req) ''start_date'' = Some sd"
    and "query_get (query_params req) ''end_date'' = Some ed"
    and "strptime_ymd sd = Some s" and "strptime_ymd ed = Some e" and "s \<le> e"
  shows
    "(let rows = filter (where_clause (id_user user) s e) db;
          days = sort (remdups (map (\<lambda>r. midnight (date_of (usage_time r))) rows))
      in token_usage_route db req (Some user)
         = (\<lparr>status_code = 200,
             body = UsageBody
               (map (\<lambda>p. \<lparr>period = strftime_ymd p,
                             total_tokens =
                               sum_list (map tokens_used
                                 (filter (\<lambda>r. midnight (date_of (usage_time r)) = p) rows))\<rparr>)
                    days)
               (map (\<lambda>p. (strftime_ymd p,
                      map (\<lambda>a. (a, sum_list (map tokens_used
                                      (filter (\<lambda>r. activity r = a)
                                         (filter (\<lambda>r. midnight (date_of (usage_time r)) = p)
                                            rows)))))
                          (sort (remdups (map activity
                             (filter (\<lambda>r. midnight (date_of (usage_time r)) = p) rows))))))
                    days)\<rparr>,
            [UsageQuery Day (id_user user) s e, BreakdownQuery Day (id_user user) s e]))
     \<and> status_code (fst (token_usage_route db req (Some user))) = 200
     \<and> token_usage_route db req (Some user)
         = token_usage_route db
             (req\<lparr>query_params := query_params req @ [(''timeframe'', ''daily'')]\<rparr>)
             (Some user)"
proof -
  have r: "token_usage_route db req (Some user)
       = (\<lparr>status_code = 200,
           body = UsageBody
             (fst (fst (get_token_usage_aggregated db (id_user user) s e ''daily'')))
             (snd (fst (get_token_usage_aggregated db (id_user user) s e ''daily'')))\<rparr>,
          snd (get_token_usage_aggregated db (id_user user) s e ''daily''))"
    by (rule route_ok [OF assms(2,3) _ assms(4,5,6)]) (simp add: assms(1))
  have st: "status_code (fst (token_usage_route db req (Some user))) = 200"
    by (simp add: r)
  have eq: "token_usage_route db req (Some user)
         = token_usage_route db
             (req\<lparr>query_params := query_params req @ [(''timeframe'', ''daily'')]\<rparr>)
             (Some user)"
    by (rule route_default_timeframe [OF assms(1), symmetric])
  show ?thesis
    unfolding Let_def
    apply (intro conjI)
    subgoal unfolding r aggregated_daily_explicit Let_def fst_conv snd_conv by (rule refl)
    subgoal by (rule st)
    subgoal by (rule eq)
    done
qed

theorem omitted_timeframe_is_daily_witness:
  "token_usage_route example_db (example_request ''alice'' example_range) (Some example_user)
     = (\<lparr>status_code = 200,
         body = UsageBody [\<lparr>period = ''2024-06-10'', total_tokens = 150\<rparr>,
                           \<lparr>period = ''2024-06-11'', total_tokens = 200\<rparr>]
                          [(''2024-06-10'', [(''api'', 50), (''chat'', 100)]),
                           (''2024-06-11'', [(''api'', 200)])]\<rparr>,
        [UsageQuery Day ''testuser'' (DateTime 2024 6 10 0 0 0 0) (DateTime 2024 6 12 0 0 0 0),
         BreakdownQuery Day ''testuser'' (DateTime 2024 6 10 0 0 0 0)
           (DateTime 2024 6 12 0 0 0 0)])
   \<and> token_usage_route example_db (example_request ''alice'' example_range) (Some example_user)
     = token_usage_route example_db
         (example_request ''alice'' (example_range @ [(''timeframe'', ''daily'')]))
         (Some example_user)"
proof -
  let ?req = "example_request ''alice'' example_range"
  have q: "query_get (query_params ?req) ''timeframe'' = None"
    "query_get (query_params ?req) ''start_date'' = Some ''2024-06-10''"
    "query_get (query_params ?req) ''end_date'' = Some ''2024-06-12''"
    by (simp_all add: example_route_omitted)
  note t = omitted_timeframe_is_daily [where req = ?req and db = example_db
      and user = example_user, OF q strptime_example_start strptime_example_end
      example_range_le]
  have r: "?req\<lparr>query_params := query_params ?req @ [(''timeframe'', ''daily'')]\<rparr>
           = example_request ''alice'' (example_range @ [(''timeframe'', ''daily'')])"
    by (simp add: example_request_def)
  from t have "token_usage_route example_db ?req (Some example_user)
      = token_usage_route example_db
          (?req\<lparr>query_params := query_params ?req @ [(''timeframe'', ''daily'')]\<rparr>)
          (Some example_user)"
    by (elim conjE)
  then have 2: "token_usage_route example_db ?req (Some example_user)
      = token_usage_route example_db
          (example_request ''alice'' (example_range @ [(''timeframe'', ''daily'')]))
          (Some example_user)"
    unfolding r .
  have 1: "token_usage_route example_db ?req (Some example_user)
     = (\<lparr>status_code = 200,
         body = UsageBody [\<lparr>period = ''2024-06-10'', total_tokens = 150\<rparr>,
                           \<lparr>period = ''2024-06-11'', total_tokens = 200\<rparr>]
                          [(''2024-06-10'', [(''api'', 50), (''chat'', 100)]),
                           (''2024-06-11'', [(''api'', 200)])]\<rparr>,
        [UsageQuery Day ''testuser'' (DateTime 2024 6 10 0 0 0 0) (DateTime 2024 6 12 0 0 0 0),
         BreakdownQuery Day ''testuser'' (DateTime 2024 6 10 0 0 0 0)
           (DateTime 2024 6 12 0 0 0 0)])"
    by (rule example_route_daily [OF example_route_omitted(2,3)
          disjI1 [OF example_route_omitted(1)]])
  from 1 2 show ?thesis by (rule conjI)
qed


text \<open>
  C5, at the failing input. The value \<open>weekly\<close> followed by a line feed is none of
  \<open>daily\<close>, \<open>weekly\<close>, \<open>monthly\<close>. The \<open>$\<close> of the route's pattern matches before a
  final line feed, so the value passes the validation; in the service it equals neither
  \<open>weekly\<close> nor \<open>monthly\<close> and the \<open>else\<close> branch sets the unit to \<open>day\<close>. The
  request is answered 200 with the aggregation by day, where the claim requires 422 and
  no defaulting of the value.
\<close>

theorem trailing_line_feed_timeframe_served_by_day:
  "app example_environ (example_decode ''k3y-from-the-vault'') example_other example_db
       (example_request ''alice''
          (example_range @ [(''timeframe'', ''weekly'' @ [CHR 0x0A])]))
     = (\<lparr>status_code = 200,
         body = UsageBody [\<lparr>period = ''2024-06-10'', total_tokens = 150\<rparr>,
                           \<lparr>period = ''2024-06-11'', total_tokens = 200\<rparr>]
                          [(''2024-06-10'', [(''api'', 50), (''chat'', 100)]),
                           (''2024-06-11'', [(''api'', 200)])]\<rparr>,
        [UsageQuery Day ''testuser'' (DateTime 2024 6 10 0 0 0 0) (DateTime 2024 6 12 0 0 0 0),
         BreakdownQuery Day ''testuser'' (DateTime 2024 6 10 0 0 0 0)
           (DateTime 2024 6 12 0 0 0 0)])"
proof -
  let ?tf = "''weekly'' @ [CHR 0x0A]"
  let ?qs = "example_range @ [(''timeframe'', ?tf)]"
  have q: "query_get ?qs ''start_date'' = Some ''2024-06-10''"
    "query_get ?qs ''end_date'' = Some ''2024-06-12''"
    "query_get ?qs ''timeframe'' = Some ?tf"
    by (simp_all add: query_get_append_timeframe example_route_omitted)
  have m: "timeframe_regex_match ?tf"
    by (simp add: timeframe_regex_match_def)
  have t: "query_get ?qs ''timeframe'' = None \<and> ?tf = ''daily''
         \<or> query_get ?qs ''timeframe'' = Some ?tf \<and> timeframe_regex_match ?tf"
    using q(3) m by (intro disjI2 conjI)
  have u: "trunc_unit_of ?tf = Day"
    by (simp add: trunc_unit_of_def)
  have i: "id_user example_user = ''testuser''"
    by (simp add: example_user_def)
  show ?thesis
    unfolding example_alice_passes
    by (rule example_route_daily_for [OF i q(1,2) t u])
qed


text \<open>
  C6. When the dates parse and are ordered and no event of the caller falls on a day
  from the start date through the end date, the handler answers 200 with an empty series
  and an empty breakdown. For every call of the service, each entry of the series is the
  period of some event the \<open>WHERE\<close> clause keeps, each bucket of the breakdown is
  non-empty, and each of its activities is the activity of such an event in that period:
  no entry is synthetic.
\<close>

theorem empty_range_gives_empty_result:
  "(strptime_ymd start_date = Some s \<and> strptime_ymd end_date = Some e \<and> s \<le> e
      \<and> (\<forall>r\<in>set db. user_id r = id_user user \<longrightarrow>
             \<not> (date_of s \<le> date_of (usage_time r) \<and> date_of (usage_time r) \<le> date_of e))
    \<longrightarrow> fst (get_token_usage db start_date end_date tf user)
          = \<lparr>status_code = 200, body = UsageBody [] []\<rparr>)
   \<and> (\<forall>en\<in>set (fst (fst (get_token_usage_aggregated db uid s e tf))).
         \<exists>r\<in>set db. where_clause uid s e r
                    \<and> period en = strftime_ymd (period_of (trunc_unit_of tf) r))
   \<and> (\<forall>entry\<in>set (snd (fst (get_token_usage_aggregated db uid s e tf))).
         snd entry \<noteq> []
         \<and> (\<forall>act\<in>set (snd entry).
               \<exists>r\<in>set db. where_clause uid s e r
                    \<and> fst entry = strftime_ymd (period_of (trunc_unit_of tf) r)
                    \<and> activity r = fst act))"
proof (intro conjI impI ballI)
  assume a: "strptime_ymd start_date = Some s \<and> strptime_ymd end_date = Some e \<and> s \<le> e
      \<and> (\<forall>r\<in>set db. user_id r = id_user user \<longrightarrow>
             \<not> (date_of s \<le> date_of (usage_time r) \<and> date_of (usage_time r) \<le> date_of e))"
  have "matching_rows db (id_user user) s e = []"
    unfolding matching_rows_def filter_empty_conv
    using a where_clause_dates [of "id_user user" s e] by blast
  then have "fst (get_token_usage_aggregated db (id_user user) s e tf) = ([], [])"
    by (rule aggregated_no_rows)
  with a show "fst (get_token_usage db start_date end_date tf user)
          = \<lparr>status_code = 200, body = UsageBody [] []\<rparr>"
    by (simp add: get_token_usage_def Let_def not_less [symmetric])
next
  let ?u = "trunc_unit_of tf"
  fix en
  assume "en \<in> set (fst (fst (get_token_usage_aggregated db uid s e tf)))"
  then obtain p where p: "p \<in> set (bucket_starts db ?u uid s e)"
      "period en = strftime_ymd p"
    unfolding usage_data_closed by auto
  then obtain r where "r \<in> set (matching_rows db uid s e)" "period_of ?u r = p"
    by (auto simp: bucket_starts_mem)
  with p(2) show "\<exists>r\<in>set db. where_clause uid s e r
                    \<and> period en = strftime_ymd (period_of ?u r)"
    by (auto simp: matching_rows_def)
next
  let ?u = "trunc_unit_of tf"
  fix entry
  assume "entry \<in> set (snd (fst (get_token_usage_aggregated db uid s e tf)))"
  then obtain p where p: "p \<in> set (bucket_starts db ?u uid s e)"
      "fst entry = strftime_ymd p"
      "map fst (snd entry) = bucket_activities db ?u uid s e p"
    unfolding breakdowns_closed by (auto simp: comp_def)
  from bucket_activities_ok [OF p(1)] p(3)
  show "snd entry \<noteq> []" by auto
next
  let ?u = "trunc_unit_of tf"
  fix entry act
  assume "entry \<in> set (snd (fst (get_token_usage_aggregated db uid s e tf)))"
    and act: "act \<in> set (snd entry)"
  then obtain p where p: "p \<in> set (bucket_starts db ?u uid s e)"
      "fst entry = strftime_ymd p"
      "map fst (snd entry) = bucket_activities db ?u uid s e p"
    unfolding breakdowns_closed by (auto simp: comp_def)
  from act have "fst act \<in> set (map fst (snd entry))" by simp
  then have "fst act \<in> set (bucket_activities db ?u uid s e p)"
    by (simp only: p(3))
  then obtain r where "r \<in> set (matching_rows db uid s e)" "period_of ?u r = p"
      "activity r = fst act"
    by (auto simp: bucket_activities_def bucket_rows_def)
  with p(2) show "\<exists>r\<in>set db. where_clause uid s e r
                    \<and> fst entry = strftime_ymd (period_of ?u r)
                    \<and> activity r = fst act"
    by (auto simp: matching_rows_def)
qed

theorem empty_range_gives_empty_result_witness:
  "fst (get_token_usage example_db ''2024-06-10'' ''2024-06-12'' ''daily''
          (new_User ''nonexistentuser'' (JStr ''nobody'') (JArr [JStr ''user''])))
   = \<lparr>status_code = 200, body = UsageBody [] []\<rparr>"
proof -
  let ?user = "new_User ''nonexistentuser'' (JStr ''nobody'') (JArr [JStr ''user''])"
  have n: "\<forall>r\<in>set example_db. user_id r = id_user ?user \<longrightarrow>
             \<not> (date_of (DateTime 2024 6 10 0 0 0 0) \<le> date_of (usage_time r)
                \<and> date_of (usage_time r) \<le> date_of (DateTime 2024 6 12 0 0 0 0))"
    by (simp add: example_db_def)
  from empty_range_gives_empty_result [where db = example_db and user = ?user
      and start_date = "''2024-06-10''" and end_date = "''2024-06-12''"
      and s = "DateTime 2024 6 10 0 0 0 0" and e = "DateTime 2024 6 12 0 0 0 0"
      and tf = "''daily''"]
  show ?thesis
    using n strptime_example_start strptime_example_end example_range_le by blast
qed

text \<open>
  C9. The result of the aggregation depends only on the events in the table, not on
  the order in which the table stores them. The bucket keys of the series are the
  formatted starts of the buckets, which ascend strictly, and the breakdown holds the same
  keys in the same order; within each bucket the activity keys ascend strictly.
\<close>

theorem aggregation_deterministic_and_ordered:
  "(mset db = mset db' \<longrightarrow>
      fst (get_token_usage_aggregated db uid s e tf)
        = fst (get_token_usage_aggregated db' uid s e tf))
   \<and> (\<exists>ps. sorted_wrt (<) ps
         \<and> map period (fst (fst (get_token_usage_aggregated db uid s e tf)))
             = map strftime_ymd ps
         \<and> dict_keys (snd (fst (get_token_usage_aggregated db uid s e tf)))
             = map strftime_ymd ps)
   \<and> (\<forall>entry\<in>set (snd (fst (get_token_usage_aggregated db uid s e tf))).
         sorted_wrt (<) (map fst (snd entry)))"
proof (intro conjI impI ballI)
  assume "mset db = mset db'"
  then show "fst (get_token_usage_aggregated db uid s e tf)
        = fst (get_token_usage_aggregated db' uid s e tf)"
    by (rule aggregated_perm)
next
  let ?ps = "bucket_starts db (trunc_unit_of tf) uid s e"
  have "sorted_wrt (<) ?ps"
    by (simp add: strict_sorted_iff bucket_starts_sorted bucket_starts_distinct)
  moreover have "map period (fst (fst (get_token_usage_aggregated db uid s e tf)))
             = map strftime_ymd ?ps"
    unfolding usage_data_closed by (simp add: comp_def)
  moreover have "dict_keys (snd (fst (get_token_usage_aggregated db uid s e tf)))
             = map strftime_ymd ?ps"
    unfolding breakdowns_closed by (simp add: dict_keys_def comp_def)
  ultimately show "\<exists>ps. sorted_wrt (<) ps
         \<and> map period (fst (fst (get_token_usage_aggregated db uid s e tf)))
             = map strftime_ymd ps
         \<and> dict_keys (snd (fst (get_token_usage_aggregated db uid s e tf)))
             = map strftime_ymd ps"
    by blast
next
  fix entry
  assume "entry \<in> set (snd (fst (get_token_usage_aggregated db uid s e tf)))"
  then obtain p where
    "map fst (snd entry) = bucket_activities db (trunc_unit_of tf) uid s e p"
    unfolding breakdowns_closed by (auto simp: comp_def)
  then show "sorted_wrt (<) (map fst (snd entry))"
    by (simp add: strict_sorted_iff bucket_activities_def)
qed

theorem aggregation_deterministic_and_ordered_witness:
  "fst (get_token_usage_aggregated (rev example_db) ''testuser''
          (DateTime 2024 6 10 0 0 0 0) (DateTime 2024 6 12 0 0 0 0) ''daily'')
   = ([\<lparr>period = ''2024-06-10'', total_tokens = 150\<rparr>,
       \<lparr>period = ''2024-06-11'', total_tokens = 200\<rparr>],
      [(''2024-06-10'', [(''api'', 50), (''chat'', 100)]),
       (''2024-06-11'', [(''api'', 200)])])"
proof -
  have "mset (rev example_db) = mset example_db" by simp
  with aggregation_deterministic_and_ordered [of "rev example_db" example_db
      "''testuser''" "DateTime 2024 6 10 0 0 0 0" "DateTime 2024 6 12 0 0 0 0" "''daily''"]
  have "fst (get_token_usage_aggregated (rev example_db) ''testuser''
          (DateTime 2024 6 10 0 0 0 0) (DateTime 2024 6 12 0 0 0 0) ''daily'')
      = fst (get_token_usage_aggregated example_db ''testuser''
          (DateTime 2024 6 10 0 0 0 0) (DateTime 2024 6 12 0 0 0 0) ''daily'')"
    by blast
  then show ?thesis by (simp only: example_daily)
qed

text \<open>
  C3, at the failing input. The table holds an event of \<open>testuser\<close> at noon of
  12 June 2024; the request for 10 June through 12 June is answered with the buckets of
  10 and 11 June only: \<open>end_date\<close> is parsed to 00:00:00 of 12 June and the query keeps
  \<open>usage_time <= end_date\<close>.
\<close>

theorem end_day_event_excluded:
  "\<lparr>id_row = 5, user_id = ''testuser'', usage_time = DateTime 2024 6 12 12 0 0 0,
     tokens_used = 150, activity = ''chat''\<rparr> \<in> set example_db
   \<and> app example_environ (example_decode ''k3y-from-the-vault'') example_other example_db
       (example_request ''alice''
          [(''start_date'', ''2024-06-10''), (''end_date'', ''2024-06-12'')])
     = (\<lparr>status_code = 200,
         body = UsageBody [\<lparr>period = ''2024-06-10'', total_tokens = 150\<rparr>,
                           \<lparr>period = ''2024-06-11'', total_tokens = 200\<rparr>]
                          [(''2024-06-10'', [(''api'', 50), (''chat'', 100)]),
                           (''2024-06-11'', [(''api'', 200)])]\<rparr>,
        [UsageQuery Day ''testuser'' (DateTime 2024 6 10 0 0 0 0) (DateTime 2024 6 12 0 0 0 0),
         BreakdownQuery Day ''testuser'' (DateTime 2024 6 10 0 0 0 0)
           (DateTime 2024 6 12 0 0 0 0)])"
proof -
  have "\<lparr>id_row = 5, user_id = ''testuser'', usage_time = DateTime 2024 6 12 12 0 0 0,
     tokens_used = 150, activity = ''chat''\<rparr> \<in> set example_db"
    by (simp add: example_db_def)
  moreover have "app example_environ (example_decode ''k3y-from-the-vault'') example_other
       example_db (example_request ''alice'' example_range)
     = (\<lparr>status_code = 200,
         body = UsageBody [\<lparr>period = ''2024-06-10'', total_tokens = 150\<rparr>,
                           \<lparr>period = ''2024-06-11'', total_tokens = 200\<rparr>]
                          [(''2024-06-10'', [(''api'', 50), (''chat'', 100)]),
                           (''2024-06-11'', [(''api'', 200)])]\<rparr>,
        [UsageQuery Day ''testuser'' (DateTime 2024 6 10 0 0 0 0) (DateTime 2024 6 12 0 0 0 0),
         BreakdownQuery Day ''testuser'' (DateTime 2024 6 10 0 0 0 0)
           (DateTime 2024 6 12 0 0 0 0)])"
    by (simp only: example_alice_passes
        example_route_daily [OF example_route_omitted(2,3) disjI1 [OF example_route_omitted(1)]])
  ultimately show ?thesis by (simp only: example_range_def simp_thms)
qed

text \<open>
  C8, at the failing input. With no \<open>JWT_SECRET_KEY\<close> and no \<open>JWT_ALGORITHM\<close> in the
  environment, the verifier works with the literal \<open>supersecretkey\<close> and HS256: a token
  signed with that literal is accepted and served.
\<close>

theorem literal_default_secret_in_use:
  "JWT_SECRET_KEY Map.empty = ''supersecretkey''
   \<and> JWT_ALGORITHM Map.empty = ''HS256''
   \<and> status_code (fst (app Map.empty (example_decode ''supersecretkey'') example_other
         example_db (example_request ''alice'' example_range))) = 200"
proof -
  have k: "JWT_SECRET_KEY Map.empty = ''supersecretkey''"
    and a: "JWT_ALGORITHM Map.empty = ''HS256''"
    by (simp_all add: JWT_SECRET_KEY_def JWT_ALGORITHM_def)
  have "status_code (fst (app Map.empty (example_decode ''supersecretkey'') example_other
         example_db (example_request ''alice'' example_range))) = 200"
    by (simp only: example_alice_passes_any [OF k a]
        example_route_daily [OF example_route_omitted(2,3) disjI1 [OF example_route_omitted(1)]]
        fst_conv response.simps)
  with k a show ?thesis by simp
qed

end
